theory Spec2Isabelle
  imports Complex_Main
begin

section \<open>The host mesh and the errors of the exporter\<close>

text \<open>
  The exporter \<^verbatim>\<open>exportToFoam\<close> of \<^verbatim>\<open>salomeToOpenFOAM_GUI_FixSelect.py\<close> reads a
  mesh through the query interface of the host platform. The answers of the host are the
  fields of the record \<open>mesh\<close>: every query of the source is a lookup in this record.
  Node ids, element ids and cell ids are Python integers (\<open>int\<close>); coordinates are
  Python floats, taken here as exact reals (rounding is not modelled).
\<close>

datatype error =
    Exception string
  | IndexError
  | KeyError
  | ZeroDivisionError

text \<open>A raised exception ends the computation: the rest runs on a returned value only.\<close>

definition bindE :: "error + 'a \<Rightarrow> ('a \<Rightarrow> error + 'b) \<Rightarrow> error + 'b" where
  "bindE r f = (case r of Inl e \<Rightarrow> Inl e | Inr x \<Rightarrow> f x)"

type_synonym vec = "real \<times> real \<times> real"

datatype elemType = NODE | EDGE | FACE | VOLUME

record group =
  GetName :: string
  GetType :: elemType
  GetIDs :: "int list"

record mesh =
  nodeIds :: "int list"
  GetNodeXYZ :: "int \<Rightarrow> vec"
  volumeIds :: "int list"
  elemFaces :: "int \<Rightarrow> int list list"
  GetElemNodes :: "int \<Rightarrow> int list"
  freeFaceIds :: "int list"
  GetGroups :: "group list"

text \<open>
  \<^verbatim>\<open>mesh.GetElemFaceNodes(v, i)\<close>: the nodes of the \<open>i\<close>-th face of the volume \<open>v\<close>,
  and the empty list when \<open>v\<close> has no such face.
\<close>

definition GetElemFaceNodes :: "mesh \<Rightarrow> int \<Rightarrow> nat \<Rightarrow> int list" where
  "GetElemFaceNodes m v i = (if i < length (elemFaces m v) then elemFaces m v ! i else [])"

section \<open>Geometry kernel\<close>

definition diff :: "vec \<Rightarrow> vec \<Rightarrow> vec" where
  "diff u v = (case u of (u0, u1, u2) \<Rightarrow> case v of (v0, v1, v2) \<Rightarrow>
     (u0 - v0, u1 - v1, u2 - v2))"

definition dotprod :: "vec \<Rightarrow> vec \<Rightarrow> real" where
  "dotprod u v = (case u of (u0, u1, u2) \<Rightarrow> case v of (v0, v1, v2) \<Rightarrow>
     u0 * v0 + u1 * v1 + u2 * v2)"

definition crossprod :: "vec \<Rightarrow> vec \<Rightarrow> vec" where
  "crossprod u v = (case u of (u0, u1, u2) \<Rightarrow> case v of (v0, v1, v2) \<Rightarrow>
     (u1 * v2 - u2 * v1, u2 * v0 - u0 * v2, u0 * v1 - u1 * v0))"

text \<open>The accumulation loop of \<^verbatim>\<open>__cog__\<close>: \<^verbatim>\<open>c[k] += pos[k]\<close> for every node.\<close>

fun cogSum :: "mesh \<Rightarrow> int list \<Rightarrow> vec \<Rightarrow> vec" where
  "cogSum m [] c = c"
| "cogSum m (n # nodes) c =
     (case c of (c0, c1, c2) \<Rightarrow> case GetNodeXYZ m n of (x, y, z) \<Rightarrow>
        cogSum m nodes (c0 + x, c1 + y, c2 + z))"

text \<open>\<^verbatim>\<open>__cog__\<close>: the division by \<^verbatim>\<open>len(nodes)\<close> raises on an empty node list.\<close>

definition cog :: "mesh \<Rightarrow> int list \<Rightarrow> error + vec" where
  "cog m nodes =
     (case cogSum m nodes (0, 0, 0) of (c0, c1, c2) \<Rightarrow>
        if length nodes = 0 then Inl ZeroDivisionError
        else Inr (c0 / real (length nodes), c1 / real (length nodes), c2 / real (length nodes)))"

text \<open>
  \<^verbatim>\<open>__calcNormal__\<close>: \<^verbatim>\<open>nodes[0]\<close>, \<^verbatim>\<open>nodes[1]\<close> and \<^verbatim>\<open>nodes[-1]\<close>; the second
  read raises when the face has fewer than two nodes.
\<close>

definition calcNormal :: "mesh \<Rightarrow> int list \<Rightarrow> error + vec" where
  "calcNormal m nodes =
     (if length nodes < 2 then Inl IndexError
      else let p0 = GetNodeXYZ m (nodes ! 0);
               p1 = GetNodeXYZ m (nodes ! 1);
               pn = GetNodeXYZ m (last nodes);
               u = diff p1 p0;
               v = diff pn p0
           in Inr (crossprod u v))"

text \<open>\<^verbatim>\<open>__verifyFaceOrder__\<close>: \<open>False\<close> when the normal points towards the cell centre.\<close>

definition verifyFaceOrder :: "mesh \<Rightarrow> int list \<Rightarrow> int list \<Rightarrow> error + bool" where
  "verifyFaceOrder m vnodes fnodes =
     bindE (cog m vnodes) (\<lambda>vc.
     bindE (cog m fnodes) (\<lambda>fc.
     bindE (calcNormal m fnodes) (\<lambda>fn.
       if dotprod fn (diff vc fc) > 0 then Inr False else Inr True)))"

text \<open>
  The orientation step of the cell pass for a new internal face (the lines under
  \<^verbatim>\<open>if verify:\<close>): the node list that is appended to \<^verbatim>\<open>faces\<close>.
\<close>

definition orientFace :: "bool \<Rightarrow> mesh \<Rightarrow> int list \<Rightarrow> int list \<Rightarrow> error + int list" where
  "orientFace verify m nodes fnodes =
     (if verify then
        bindE (verifyFaceOrder m nodes fnodes) (\<lambda>ok.
          if \<not> ok then Inr (rev fnodes) else Inr fnodes)
      else Inr fnodes)"



section \<open>Face keys and the per-cell face buffer\<close>

text \<open>
  A face key is a Python tuple of node ids. \<^verbatim>\<open>MeshBuffer.ReverseKey\<close> looks at the
  type of its argument, so the argument carries it: a tuple is reversed as it is, anything
  else is sorted in descending order. Every call site of the exporter passes the list
  returned by the host.
\<close>

datatype pyseq = PyTuple "int list" | PyList "int list"

definition Key :: "int list \<Rightarrow> int list" where
  "Key fnodes = sort fnodes"

fun ReverseKey :: "pyseq \<Rightarrow> int list" where
  "ReverseKey (PyTuple fnodes) = rev fnodes"
| "ReverseKey (PyList fnodes) = rev (sort fnodes)"

record MeshBuffer =
  buf_v :: int
  buf_faces :: "int list list"
  buf_keys :: "int list list"
  buf_fL :: nat

text \<open>
  The loop of \<^verbatim>\<open>MeshBuffer.__init__\<close>: it asks the host for face \<open>i\<close> until the
  answer is empty.
\<close>

function bufferLoop ::
  "mesh \<Rightarrow> int \<Rightarrow> nat \<Rightarrow> int list list \<Rightarrow> int list list \<Rightarrow> int list list \<times> int list list \<times> nat"
where
  "bufferLoop m v i fs ks =
     (if GetElemFaceNodes m v i \<noteq> []
      then bufferLoop m v (i + 1) (fs @ [GetElemFaceNodes m v i]) (ks @ [Key (GetElemFaceNodes m v i)])
      else (fs, ks, i))"
  by pat_completeness auto
termination
  by (relation "measure (\<lambda>(m, v, i, fs, ks). length (elemFaces m v) - i)")
     (auto simp: GetElemFaceNodes_def split: if_splits)

declare bufferLoop.simps [simp del]

definition newMeshBuffer :: "mesh \<Rightarrow> int \<Rightarrow> MeshBuffer" where
  "newMeshBuffer m v =
     (case bufferLoop m v 0 [] [] of
        (fs, ks, i) \<Rightarrow> \<lparr> buf_v = v, buf_faces = fs, buf_keys = ks, buf_fL = i \<rparr>)"

section \<open>The local variables of \<^verbatim>\<open>exportToFoam\<close>\<close>

text \<open>
  The two dictionaries map a key to a face index. \<open>defGroup\<close> is the face group that the
  exporter creates on the host (its name and the ids added to it), if it creates one.
\<close>

record exportState =
  nrBCfaces :: int
  nrFaces :: int
  nrIntFaces :: int
  faces :: "int list list"
  facesSorted :: "int list \<rightharpoonup> nat"
  bcFaces :: "int list list"
  bcFacesSorted :: "int list \<rightharpoonup> nat"
  owner :: "int list"
  neighbour :: "int list"
  grpStartFace :: "int list"
  grpNrFaces :: "int list"
  grpNames :: "string list"
  ofbcfid :: nat
  nrExtFacesInGroups :: int
  defGroup :: "(string \<times> int list) option"
  offid :: nat
  ofvid :: int

text \<open>
  \<^verbatim>\<open>extFaces = set(mesh.GetIdsFromFilter(filter))\<close>. Where the source iterates over
  the set, the model takes the ids in the order of \<open>extFacesList\<close> (Python leaves the
  order of a set open).
\<close>

definition extFacesList :: "mesh \<Rightarrow> int list" where
  "extFacesList m = remdups (freeFaceIds m)"

definition nrExtFaces :: "mesh \<Rightarrow> int" where
  "nrExtFaces m = int (length (extFacesList m))"

definition buffersOf :: "mesh \<Rightarrow> MeshBuffer list" where
  "buffersOf m = map (newMeshBuffer m) (volumeIds m)"

text \<open>
  The counting up to the first debug print: \<^verbatim>\<open>int((nrFaces + nrExtFaces) / 2)\<close> on
  non-negative counts is the integer quotient.
\<close>

definition initState :: "mesh \<Rightarrow> exportState" where
  "initState m =
     (let total = (\<Sum>b \<leftarrow> buffersOf m. int (buf_fL b));
          nf = (total + nrExtFaces m) div 2
      in \<lparr> nrBCfaces = nrExtFaces m, nrFaces = nf, nrIntFaces = nf - nrExtFaces m,
           faces = [], facesSorted = Map.empty, bcFaces = [], bcFacesSorted = Map.empty,
           owner = [], neighbour = [], grpStartFace = [], grpNrFaces = [], grpNames = [],
           ofbcfid = 0, nrExtFacesInGroups = 0, defGroup = None, offid = 0, ofvid = 0 \<rparr>)"

section \<open>Python string formatting\<close>

text \<open>Python's \<^verbatim>\<open>"%d"\<close> on a non-negative integer, and on any integer.\<close>

fun showNat :: "nat \<Rightarrow> string" where
  "showNat n =
     (if n < 10 then [''0123456789'' ! n]
      else showNat (n div 10) @ [''0123456789'' ! (n mod 10)])"

declare showNat.simps [simp del]

definition showInt :: "int \<Rightarrow> string" where
  "showInt i = (if i < 0 then CHR ''-'' # showNat (nat (- i)) else showNat (nat i))"

text \<open>\<^verbatim>\<open>"%s"\<close> on a list of integers: \<^verbatim>\<open>[1, 2, 3]\<close>.\<close>

fun showInts :: "int list \<Rightarrow> string" where
  "showInts [] = []"
| "showInts [i] = showInt i"
| "showInts (i # j # rest) = showInt i @ '', '' @ showInts (j # rest)"

definition showIntList :: "int list \<Rightarrow> string" where
  "showIntList xs = ''['' @ showInts xs @ '']''"

text \<open>The message of the exception raised for a face whose key is registered already.\<close>

definition conflictMessage :: "int \<Rightarrow> int list \<Rightarrow> string \<Rightarrow> string" where
  "conflictMessage sfid fnodes gname =
     ''Error the face, elemId '' @ showInt sfid @ '', '' @ showIntList fnodes @ '' belongs to two ''
       @ ''or more groups. One is : '' @ gname"

section \<open>Boundary groups\<close>

text \<open>The loop over the faces of a group: a key that is already registered raises.\<close>

fun registerGroupFaces :: "mesh \<Rightarrow> string \<Rightarrow> int list \<Rightarrow> exportState \<Rightarrow> error + exportState" where
  "registerGroupFaces m gname [] st = Inr st"
| "registerGroupFaces m gname (sfid # grIds) st =
     (if bcFacesSorted st (Key (GetElemNodes m sfid)) = None
      then registerGroupFaces m gname grIds
             (st\<lparr> bcFaces := bcFaces st @ [GetElemNodes m sfid],
                  bcFacesSorted := (bcFacesSorted st)(Key (GetElemNodes m sfid) \<mapsto> ofbcfid st),
                  ofbcfid := ofbcfid st + 1 \<rparr>)
      else Inl (Exception (conflictMessage sfid (GetElemNodes m sfid) gname)))"

text \<open>The second loop over a baffle group: every face again, under its reversed key.\<close>

fun registerBaffleFaces :: "mesh \<Rightarrow> int list \<Rightarrow> exportState \<Rightarrow> exportState" where
  "registerBaffleFaces m [] st = st"
| "registerBaffleFaces m (sfid # grIds) st =
     registerBaffleFaces m grIds
       (st\<lparr> bcFaces := bcFaces st @ [GetElemNodes m sfid],
            bcFacesSorted := (bcFacesSorted st)(ReverseKey (PyList (GetElemNodes m sfid)) \<mapsto> ofbcfid st),
            ofbcfid := ofbcfid st + 1 \<rparr>)"

text \<open>\<^verbatim>\<open>__isGroupBaffle__\<close>: true at the first member that is not a free face.\<close>

fun isBaffleIds :: "int list \<Rightarrow> int set \<Rightarrow> bool" where
  "isBaffleIds [] extFaces = False"
| "isBaffleIds (sid # ids) extFaces = (if sid \<notin> extFaces then True else isBaffleIds ids extFaces)"

definition isGroupBaffle :: "mesh \<Rightarrow> group \<Rightarrow> int set \<Rightarrow> bool" where
  "isGroupBaffle m gr extFaces = isBaffleIds (GetIDs gr) extFaces"

text \<open>One round of \<^verbatim>\<open>for gr in mesh.GetGroups()\<close>.\<close>

definition processGroup :: "mesh \<Rightarrow> int set \<Rightarrow> group \<Rightarrow> exportState \<Rightarrow> error + exportState" where
  "processGroup m extFaces gr st =
     (if GetType gr = FACE then
        let nr = int (length (GetIDs gr));
            st1 = st\<lparr> grpNames := grpNames st @ [GetName gr] \<rparr>;
            st2 = (if nr > 0
                   then st1\<lparr> grpStartFace := grpStartFace st1 @ [nrIntFaces st1 + int (ofbcfid st1)],
                             grpNrFaces := grpNrFaces st1 @ [nr] \<rparr>
                   else st1)
        in bindE (registerGroupFaces m (GetName gr) (GetIDs gr) st2) (\<lambda>st3.
             if isGroupBaffle m gr extFaces then
               (if grpNrFaces st3 = [] then Inl IndexError
                else Inr (registerBaffleFaces m (GetIDs gr)
                       (st3\<lparr> nrBCfaces := nrBCfaces st3 + nr,
                             nrFaces := nrFaces st3 + nr,
                             nrIntFaces := nrIntFaces st3 - nr,
                             grpStartFace := map (\<lambda>x. x - nr) (grpStartFace st3),
                             grpNrFaces := (grpNrFaces st3)[length (grpNrFaces st3) - 1 := nr * 2] \<rparr>)))
             else Inr (st3\<lparr> nrExtFacesInGroups := nrExtFacesInGroups st3 + nr \<rparr>))
      else Inr st)"

fun groupsLoop :: "mesh \<Rightarrow> int set \<Rightarrow> group list \<Rightarrow> exportState \<Rightarrow> error + exportState" where
  "groupsLoop m extFaces [] st = Inr st"
| "groupsLoop m extFaces (gr # grs) st =
     bindE (processGroup m extFaces gr st) (groupsLoop m extFaces grs)"


section \<open>The catch-all group\<close>

definition defaultName :: "nat \<Rightarrow> string" where
  "defaultName nri = ''defaultPatches_'' @ showNat nri"

lemma showNat_bound: "n < 10 ^ length (showNat n)"
proof (induction n rule: showNat.induct)
  case (1 n)
  show ?case
  proof (cases "n < 10")
    case True
    then show ?thesis by (subst showNat.simps) simp
  next
    case False
    with 1 have "n div 10 < 10 ^ length (showNat (n div 10))" by simp
    then have "n < 10 * 10 ^ length (showNat (n div 10))" by linarith
    with False show ?thesis by (subst showNat.simps) simp
  qed
qed

lemma defaultName_bound:
  assumes "defaultName k \<in> set names"
  shows "k < 10 ^ Max (insert 0 (length ` set names))"
proof -
  have "length (defaultName k) \<le> Max (insert 0 (length ` set names))"
    using assms by (intro Max_ge) auto
  then have "length (showNat k) \<le> Max (insert 0 (length ` set names))"
    by (simp add: defaultName_def)
  then have "(10::nat) ^ length (showNat k) \<le> 10 ^ Max (insert 0 (length ` set names))"
    by (intro power_increasing) auto
  with showNat_bound [of k] show ?thesis by linarith
qed

text \<open>
  The loop \<^verbatim>\<open>while newGrpName in grpNames\<close>. It ends: a name with a large enough
  number is longer than every name of the list.
\<close>

function newNameLoop :: "string list \<Rightarrow> string \<Rightarrow> nat \<Rightarrow> string" where
  "newNameLoop names newGrpName nri =
     (if newGrpName \<in> set names then newNameLoop names (defaultName nri) (nri + 1)
      else newGrpName)"
  by pat_completeness auto
termination
proof (relation "measure (\<lambda>(names, newGrpName, nri).
         if newGrpName \<in> set names
         then Suc (10 ^ Max (insert 0 (length ` set names)) - nri) else 0)")
  show "wf (measure (\<lambda>(names, newGrpName, nri).
         if newGrpName \<in> set names
         then Suc (10 ^ Max (insert 0 (length ` set names)) - nri) else 0))"
    by simp
next
  fix names :: "string list" and newGrpName :: string and nri :: nat
  assume "newGrpName \<in> set names"
  then show "((names, defaultName nri, nri + 1), (names, newGrpName, nri))
    \<in> measure (\<lambda>(names, newGrpName, nri).
         if newGrpName \<in> set names
         then Suc (10 ^ Max (insert 0 (length ` set names)) - nri) else 0)"
    using defaultName_bound [of nri names] by auto
qed

declare newNameLoop.simps [simp del]

text \<open>The loop \<^verbatim>\<open>for face in extFaces\<close>: the free faces whose key is not registered yet.\<close>

fun defaultFacesLoop :: "mesh \<Rightarrow> int list \<Rightarrow> exportState \<Rightarrow> int list \<Rightarrow> exportState \<times> int list" where
  "defaultFacesLoop m [] st salomeIDs = (st, salomeIDs)"
| "defaultFacesLoop m (face # rest) st salomeIDs =
     (if bcFacesSorted st (Key (GetElemNodes m face)) = None
      then defaultFacesLoop m rest
             (st\<lparr> bcFaces := bcFaces st @ [GetElemNodes m face],
                  bcFacesSorted := (bcFacesSorted st)(Key (GetElemNodes m face) \<mapsto> ofbcfid st),
                  ofbcfid := ofbcfid st + 1 \<rparr>)
             (salomeIDs @ [face])
      else defaultFacesLoop m rest st salomeIDs)"

definition addDefaultPatches :: "mesh \<Rightarrow> exportState \<Rightarrow> exportState" where
  "addDefaultPatches m st =
     (if nrExtFacesInGroups st < nrExtFaces m then
        (case defaultFacesLoop m (extFacesList m)
                (st\<lparr> grpStartFace := grpStartFace st @ [nrIntFaces st + int (ofbcfid st)],
                     grpNrFaces := grpNrFaces st @ [nrExtFaces m - nrExtFacesInGroups st] \<rparr>) [] of
           (st2, salomeIDs) \<Rightarrow>
             st2\<lparr> grpNames := grpNames st2 @ [newNameLoop (grpNames st2) ''defaultPatches'' 1],
                  defGroup := Some (newNameLoop (grpNames st2) ''defaultPatches'' 1, salomeIDs) \<rparr>)
      else st)"

text \<open>The boundary part of \<^verbatim>\<open>exportToFoam\<close>: the declared groups, then the catch-all.\<close>

definition boundaryPass :: "mesh \<Rightarrow> error + exportState" where
  "boundaryPass m =
     bindE (groupsLoop m (set (freeFaceIds m)) (GetGroups m) (initState m)) (\<lambda>st.
       Inr (addDefaultPatches m st))"

section \<open>The cell pass\<close>

text \<open>
  A Python list index: a negative index counts from the end, and an index outside
  \<open>[-n, n)\<close> raises.
\<close>

definition pyIndex :: "nat \<Rightarrow> int \<Rightarrow> nat option" where
  "pyIndex n i =
     (if 0 \<le> i \<and> i < int n then Some (nat i)
      else if i < 0 \<and> - int n \<le> i then Some (nat (int n + i))
      else None)"

text \<open>\<^verbatim>\<open>owner = [-1] * nrFaces\<close> and \<^verbatim>\<open>neighbour = [-1] * nrIntFaces\<close>.\<close>

definition initArrays :: "exportState \<Rightarrow> exportState" where
  "initArrays st =
     st\<lparr> owner := replicate (nat (nrFaces st)) (- 1),
          neighbour := replicate (nat (nrIntFaces st)) (- 1) \<rparr>"

text \<open>A face that is in neither dictionary: a new internal face of the current cell.\<close>

definition newInternalFace ::
  "bool \<Rightarrow> mesh \<Rightarrow> int list \<Rightarrow> int list \<Rightarrow> int list \<Rightarrow> exportState \<Rightarrow> error + exportState" where
  "newInternalFace verify m nodes fnodes key st =
     bindE (orientFace verify m nodes fnodes) (\<lambda>fnodes'.
       if offid st < length (owner st)
       then Inr (st\<lparr> faces := faces st @ [fnodes'],
                     facesSorted := (facesSorted st)(key \<mapsto> offid st),
                     owner := (owner st)[offid st := ofvid st],
                     offid := offid st + 1 \<rparr>)
       else Inl IndexError)"

text \<open>
  A face found in \<^verbatim>\<open>bcFacesSorted\<close>. When its owner slot is taken, the twin is looked
  up under the reversed key; a missing twin is a \<^verbatim>\<open>KeyError\<close> inside the \<^verbatim>\<open>try\<close>, so
  the face is then handled as a new internal face.
\<close>

definition boundaryFace ::
  "bool \<Rightarrow> mesh \<Rightarrow> int list \<Rightarrow> int list \<Rightarrow> int list \<Rightarrow> nat \<Rightarrow> exportState \<Rightarrow> error + exportState" where
  "boundaryFace verify m nodes fnodes key bcind st =
     (case pyIndex (length (owner st)) (nrIntFaces st + int bcind) of
        None \<Rightarrow> Inl IndexError
      | Some j \<Rightarrow>
          if owner st ! j = - 1 then
            (if bcind < length (bcFaces st)
             then Inr (st\<lparr> owner := (owner st)[j := ofvid st],
                           bcFaces := (bcFaces st)[bcind := fnodes] \<rparr>)
             else Inl IndexError)
          else
            (case bcFacesSorted st (ReverseKey (PyList fnodes)) of
               None \<Rightarrow> newInternalFace verify m nodes fnodes key st
             | Some bcind2 \<Rightarrow>
                 if bcind2 < length (bcFaces st) then
                   (case pyIndex (length (owner st)) (nrIntFaces st + int bcind2) of
                      None \<Rightarrow> Inl IndexError
                    | Some j2 \<Rightarrow>
                        Inr (st\<lparr> bcFaces := (bcFaces st)[bcind2 := fnodes],
                                 owner := (owner st)[j2 := ofvid st] \<rparr>))
                 else Inl IndexError))"

text \<open>The body of \<^verbatim>\<open>while fi < b.fL\<close> for one face of the cell with nodes \<open>nodes\<close>.\<close>

definition faceStep ::
  "bool \<Rightarrow> mesh \<Rightarrow> int list \<Rightarrow> int list \<Rightarrow> int list \<Rightarrow> exportState \<Rightarrow> error + exportState" where
  "faceStep verify m nodes fnodes key st =
     (case facesSorted st key of
        Some fidinof \<Rightarrow>
          if fidinof < length (neighbour st)
          then Inr (st\<lparr> neighbour := (neighbour st)[fidinof := ofvid st] \<rparr>)
          else Inl IndexError
      | None \<Rightarrow>
          (case bcFacesSorted st key of
             Some bcind \<Rightarrow> boundaryFace verify m nodes fnodes key bcind st
           | None \<Rightarrow> newInternalFace verify m nodes fnodes key st))"

fun facesLoop ::
  "bool \<Rightarrow> mesh \<Rightarrow> int list \<Rightarrow> (int list \<times> int list) list \<Rightarrow> exportState \<Rightarrow> error + exportState" where
  "facesLoop verify m nodes [] st = Inr st"
| "facesLoop verify m nodes ((fnodes, key) # rest) st =
     bindE (faceStep verify m nodes fnodes key st) (facesLoop verify m nodes rest)"

text \<open>The loop \<^verbatim>\<open>for b in buffers\<close>.\<close>

fun cellsLoop :: "bool \<Rightarrow> mesh \<Rightarrow> MeshBuffer list \<Rightarrow> exportState \<Rightarrow> error + exportState" where
  "cellsLoop verify m [] st = Inr st"
| "cellsLoop verify m (b # bs) st =
     bindE (facesLoop verify m (GetElemNodes m (buf_v b))
              (zip (buf_faces b) (buf_keys b)) st)
       (\<lambda>st'. cellsLoop verify m bs (st'\<lparr> ofvid := ofvid st' + 1 \<rparr>))"

definition cellPass :: "bool \<Rightarrow> mesh \<Rightarrow> exportState \<Rightarrow> error + exportState" where
  "cellPass verify m st = cellsLoop verify m (buffersOf m) (initArrays st)"


section \<open>The upper-triangular post-pass\<close>

text \<open>
  The block under \<^verbatim>\<open>if ownedfaces > 1\<close> for the run \<open>sId .. eId\<close>. The key function
  \<^verbatim>\<open>neighbour.__getitem__\<close> is called on every index of the run in both branches, and
  \<^verbatim>\<open>faces.__getitem__\<close> afterwards; the last index \<open>eId\<close> is the first to be out of
  range. With Python 3 the list returned by \<^verbatim>\<open>sorted\<close> is dropped and \<^verbatim>\<open>inds\<close> stays
  the range; with Python 2 \<^verbatim>\<open>inds.sort\<close> sorts the list in place (a stable sort).
\<close>

definition sortRun :: "nat \<Rightarrow> nat \<Rightarrow> nat \<Rightarrow> exportState \<Rightarrow> error + exportState" where
  "sortRun pyMajor sId eId st =
     (if \<not> eId < length (neighbour st) then Inl IndexError
      else
        let inds = (if pyMajor > 2 then [sId..<eId + 1]
                    else sort_key (\<lambda>i. neighbour st ! i) [sId..<eId + 1])
        in if \<not> eId < length (faces st) then Inl IndexError
           else Inr (st\<lparr> neighbour := take sId (neighbour st) @ map (\<lambda>i. neighbour st ! i) inds
                                        @ drop (eId + 1) (neighbour st),
                         faces := take sId (faces st) @ map (\<lambda>i. faces st ! i) inds
                                        @ drop (eId + 1) (faces st) \<rparr>))"

text \<open>
  The loop \<^verbatim>\<open>for faceId in quickrange(0, nrIntFaces)\<close> with its counter
  \<^verbatim>\<open>ownedfaces\<close>; the reads \<^verbatim>\<open>owner[faceId]\<close> and \<^verbatim>\<open>owner[faceId + 1]\<close> raise
  past the end of \<^verbatim>\<open>owner\<close>.
\<close>

fun reorderLoop :: "nat \<Rightarrow> nat list \<Rightarrow> nat \<Rightarrow> exportState \<Rightarrow> error + exportState" where
  "reorderLoop pyMajor [] ownedfaces st = Inr st"
| "reorderLoop pyMajor (faceId # rest) ownedfaces st =
     (if \<not> faceId + 1 < length (owner st) then Inl IndexError
      else if owner st ! faceId = owner st ! (faceId + 1)
      then reorderLoop pyMajor rest (ownedfaces + 1) st
      else if ownedfaces > 1
      then bindE (sortRun pyMajor (faceId + 1 - ownedfaces) faceId st)
             (reorderLoop pyMajor rest 1)
      else reorderLoop pyMajor rest 1 st)"

definition upperTriangular :: "nat \<Rightarrow> exportState \<Rightarrow> error + exportState" where
  "upperTriangular pyMajor st = reorderLoop pyMajor [0..<nat (nrIntFaces st)] 1 st"

section \<open>The export\<close>

text \<open>
  What the exporter is run with: the major version of the Python interpreter, the module
  variable \<^verbatim>\<open>verify\<close>, the texts of the combo boxes in the module variable \<^verbatim>\<open>bound\<close>,
  and whether the five output files can be opened.
\<close>

record env =
  env_pyMajor :: nat
  env_verify :: bool
  env_bound :: "string list"
  env_canOpen :: bool

definition buildMesh :: "env \<Rightarrow> mesh \<Rightarrow> error + exportState" where
  "buildMesh e m =
     bindE (boundaryPass m) (\<lambda>st.
     bindE (cellPass (env_verify e) m st) (\<lambda>st2.
       upperTriangular (env_pyMajor e) st2))"

text \<open>
  The content written to the files, as data: \<open>None\<close> is a file that nothing was written
  to. An entry of the boundary file is recorded once it is written completely.
\<close>

record patch =
  patchName :: string
  patchType :: string
  nFaces :: int
  startFace :: int

record foamFiles =
  filePoints :: "vec list option"
  fileFaces :: "(int \<times> int list list) option"
  fileOwner :: "((int \<times> int \<times> int \<times> int) \<times> int list) option"
  fileNeighbour :: "((int \<times> int \<times> int \<times> int) \<times> int list) option"
  fileBoundary :: "(nat \<times> patch list) option"
  fileCellZones :: "(string \<times> nat list) list option"

datatype outcome = CouldNotOpen | Raised error | Finished

definition noFiles :: foamFiles where
  "noFiles = \<lparr> filePoints = None, fileFaces = None, fileOwner = None, fileNeighbour = None,
               fileBoundary = None, fileCellZones = None \<rparr>"

text \<open>The loop \<^verbatim>\<open>for ind, gname in enumerate(grpNames)\<close> of the boundary file.\<close>

fun writePatches ::
  "string list \<Rightarrow> exportState \<Rightarrow> nat \<Rightarrow> string list \<Rightarrow> patch list \<Rightarrow> patch list \<times> error option" where
  "writePatches bnd st ind [] acc = (acc, None)"
| "writePatches bnd st ind (gname # rest) acc =
     (if ind < length bnd \<and> ind < length (grpNrFaces st) \<and> ind < length (grpStartFace st)
      then writePatches bnd st (ind + 1) rest
             (acc @ [\<lparr> patchName = gname, patchType = bnd ! ind,
                       nFaces = grpNrFaces st ! ind, startFace = grpStartFace st ! ind \<rparr>])
      else (acc, Some IndexError))"

text \<open>The cell zones: \<^verbatim>\<open>scToOFc[csId]\<close> raises for an id that is not a volume.\<close>

definition scToOFc :: "mesh \<Rightarrow> int \<rightharpoonup> nat" where
  "scToOFc m = map_of (rev (zip (volumeIds m) [0..<length (volumeIds m)]))"

fun zoneLabels :: "(int \<rightharpoonup> nat) \<Rightarrow> int list \<Rightarrow> error + nat list" where
  "zoneLabels d [] = Inr []"
| "zoneLabels d (csId # rest) =
     (case d csId of
        None \<Rightarrow> Inl KeyError
      | Some ofID \<Rightarrow> bindE (zoneLabels d rest) (\<lambda>ids. Inr (ofID # ids)))"

fun writeCellZones ::
  "mesh \<Rightarrow> group list \<Rightarrow> (string \<times> nat list) list \<Rightarrow> (string \<times> nat list) list \<times> error option" where
  "writeCellZones m [] acc = (acc, None)"
| "writeCellZones m (grp # rest) acc =
     (if GetType grp = VOLUME then
        (case zoneLabels (scToOFc m) (GetIDs grp) of
           Inl err \<Rightarrow> (acc, Some err)
         | Inr ids \<Rightarrow> writeCellZones m rest (acc @ [(GetName grp, ids)]))
      else writeCellZones m rest acc)"

definition writeFiles :: "env \<Rightarrow> mesh \<Rightarrow> exportState \<Rightarrow> foamFiles \<times> outcome" where
  "writeFiles e m st =
     (let note = (int (length (nodeIds m)), ofvid st, nrFaces st, nrIntFaces st);
          written = noFiles
            \<lparr> filePoints := Some (map (GetNodeXYZ m) (nodeIds m)),
              fileFaces := Some (nrFaces st, map (map (\<lambda>p. p - 1)) (faces st @ bcFaces st)),
              fileOwner := Some (note, owner st),
              fileNeighbour := Some (note, neighbour st) \<rparr>
      in case writePatches (env_bound e) st 0 (grpNames st) [] of
           (ps, Some err) \<Rightarrow>
             (written\<lparr> fileBoundary := Some (length (grpStartFace st), ps) \<rparr>, Raised err)
         | (ps, None) \<Rightarrow>
             (if filter (\<lambda>grp. GetType grp = VOLUME) (GetGroups m) = []
              then (written\<lparr> fileBoundary := Some (length (grpStartFace st), ps) \<rparr>, Finished)
              else
                (case writeCellZones m (GetGroups m) [] of
                   (zs, Some err) \<Rightarrow>
                     (written\<lparr> fileBoundary := Some (length (grpStartFace st), ps),
                               fileCellZones := Some zs \<rparr>, Raised err)
                 | (zs, None) \<Rightarrow>
                     (written\<lparr> fileBoundary := Some (length (grpStartFace st), ps),
                               fileCellZones := Some zs \<rparr>, Finished))))"

text \<open>
  \<^verbatim>\<open>exportToFoam\<close>: it opens the files, builds the arrays, and writes. An exception
  before the first write leaves every file without content.
\<close>

definition exportToFoam :: "env \<Rightarrow> mesh \<Rightarrow> foamFiles \<times> outcome" where
  "exportToFoam e m =
     (if \<not> env_canOpen e then (noFiles, CouldNotOpen)
      else case buildMesh e m of
             Inl err \<Rightarrow> (noFiles, Raised err)
           | Inr st \<Rightarrow> writeFiles e m st)"


section \<open>Example meshes\<close>









definition py3 :: env where
  "py3 = \<lparr> env_pyMajor = 3, env_verify = True,
           env_bound = [''patch'', ''patch'', ''patch'', ''patch''], env_canOpen = True \<rparr>"

definition py2 :: env where
  "py2 = \<lparr> env_pyMajor = 2, env_verify = True,
           env_bound = [''patch'', ''patch'', ''patch'', ''patch''], env_canOpen = True \<rparr>"

text \<open>
  Three tetrahedra: volume 11 shares the triangle 1, 2, 4 with volume 13 and the triangle
  1, 2, 3 with volume 12, and the host lists the first of these two faces first. The eight
  outer triangles are the face elements 1 to 8. \<open>threeTetsB\<close> is the same mesh with the
  free faces reported in another order.
\<close>

definition tet3XYZ :: "int \<Rightarrow> vec" where
  "tet3XYZ n =
     (if n = 1 then (0, 0, 0) else if n = 2 then (1, 0, 0) else if n = 3 then (0, 1, 0)
      else if n = 4 then (0, 0, 1) else if n = 5 then (0, 0, - 1) else (0, - 1, 0))"

definition tet3Faces :: "int \<Rightarrow> int list list" where
  "tet3Faces v =
     (if v = 11 then [[1, 2, 4], [1, 3, 2], [2, 3, 4], [1, 4, 3]]
      else if v = 12 then [[1, 2, 3], [1, 5, 2], [2, 5, 3], [1, 3, 5]]
      else if v = 13 then [[1, 4, 2], [1, 2, 6], [2, 4, 6], [1, 6, 4]]
      else [])"

definition tet3Nodes :: "int \<Rightarrow> int list" where
  "tet3Nodes e =
     (if e = 1 then [2, 3, 4] else if e = 2 then [1, 4, 3] else if e = 3 then [1, 5, 2]
      else if e = 4 then [2, 5, 3] else if e = 5 then [1, 3, 5] else if e = 6 then [1, 2, 6]
      else if e = 7 then [2, 4, 6] else if e = 8 then [1, 6, 4]
      else if e = 11 then [1, 2, 3, 4] else if e = 12 then [1, 2, 3, 5]
      else if e = 13 then [1, 2, 4, 6] else [])"

definition threeTets :: mesh where
  "threeTets = \<lparr> nodeIds = [1, 2, 3, 4, 5, 6], GetNodeXYZ = tet3XYZ, volumeIds = [11, 12, 13],
     elemFaces = tet3Faces, GetElemNodes = tet3Nodes, freeFaceIds = [1, 2, 3, 4, 5, 6, 7, 8],
     GetGroups = [] \<rparr>"

definition threeTetsB :: mesh where
  "threeTetsB = threeTets \<lparr> freeFaceIds := [3, 4, 5, 6, 7, 8, 1, 2] \<rparr>"

text \<open>
  Two unit cubes, volume 21 below volume 22, that share the quadrilateral 5, 6, 7, 8. The
  ten outer faces are the face elements 1 to 10 and the shared quadrilateral is the face
  element 11. \<open>twoHex\<close> takes the declared groups; its free faces are the ten outer faces.
  \<open>oneHex\<close> is the lower cube alone: its six faces, the face elements 1 to 5 and 11, are
  all free.
\<close>

definition hexXYZ :: "int \<Rightarrow> vec" where
  "hexXYZ n =
     (if n = 1 then (0, 0, 0) else if n = 2 then (1, 0, 0) else if n = 3 then (1, 1, 0)
      else if n = 4 then (0, 1, 0) else if n = 5 then (0, 0, 1) else if n = 6 then (1, 0, 1)
      else if n = 7 then (1, 1, 1) else if n = 8 then (0, 1, 1) else if n = 9 then (0, 0, 2)
      else if n = 10 then (1, 0, 2) else if n = 11 then (1, 1, 2) else (0, 1, 2))"

definition hexFaces :: "int \<Rightarrow> int list list" where
  "hexFaces v =
     (if v = 21 then [[1, 4, 3, 2], [5, 6, 7, 8], [1, 2, 6, 5], [2, 3, 7, 6], [3, 4, 8, 7], [4, 1, 5, 8]]
      else if v = 22 then [[5, 8, 7, 6], [9, 10, 11, 12], [5, 6, 10, 9], [6, 7, 11, 10],
                           [7, 8, 12, 11], [8, 5, 9, 12]]
      else [])"

definition hexNodes :: "int \<Rightarrow> int list" where
  "hexNodes e =
     (if e = 1 then [1, 4, 3, 2] else if e = 2 then [1, 2, 6, 5] else if e = 3 then [2, 3, 7, 6]
      else if e = 4 then [3, 4, 8, 7] else if e = 5 then [4, 1, 5, 8]
      else if e = 6 then [9, 10, 11, 12] else if e = 7 then [5, 6, 10, 9]
      else if e = 8 then [6, 7, 11, 10] else if e = 9 then [7, 8, 12, 11]
      else if e = 10 then [8, 5, 9, 12] else if e = 11 then [5, 6, 7, 8]
      else if e = 21 then [1, 2, 3, 4, 5, 6, 7, 8]
      else if e = 22 then [5, 6, 7, 8, 9, 10, 11, 12] else [])"

definition twoHex :: "group list \<Rightarrow> mesh" where
  "twoHex grs = \<lparr> nodeIds = [1, 2, 3, 4, 5, 6, 7, 8, 9, 10, 11, 12], GetNodeXYZ = hexXYZ,
     volumeIds = [21, 22], elemFaces = hexFaces, GetElemNodes = hexNodes,
     freeFaceIds = [1, 2, 3, 4, 5, 6, 7, 8, 9, 10], GetGroups = grs \<rparr>"

definition oneHex :: "group list \<Rightarrow> mesh" where
  "oneHex grs = \<lparr> nodeIds = [1, 2, 3, 4, 5, 6, 7, 8], GetNodeXYZ = hexXYZ,
     volumeIds = [21], elemFaces = hexFaces, GetElemNodes = hexNodes,
     freeFaceIds = [1, 2, 3, 4, 5, 11], GetGroups = grs \<rparr>"

definition faceGroup :: "string \<Rightarrow> int list \<Rightarrow> group" where
  "faceGroup name ids = \<lparr> GetName = name, GetType = FACE, GetIDs = ids \<rparr>"

text \<open>
  A state whose internal faces are in upper-triangular order: cell 0 owns the faces 0 to 2
  and cell 1 the faces 3 and 4.
\<close>

definition orderedArrays :: exportState where
  "orderedArrays =
     \<lparr> nrBCfaces = 2, nrFaces = 7, nrIntFaces = 5,
       faces = [[1, 2, 3], [1, 2, 4], [1, 3, 4], [2, 3, 5], [2, 4, 5]],
       facesSorted = Map.empty, bcFaces = [[3, 5, 6], [4, 5, 6]], bcFacesSorted = Map.empty,
       owner = [0, 0, 0, 1, 1, 2, 3], neighbour = [1, 2, 3, 2, 3],
       grpStartFace = [5], grpNrFaces = [2], grpNames = [''defaultPatches''],
       ofbcfid = 2, nrExtFacesInGroups = 0, defGroup = None, offid = 5, ofvid = 4 \<rparr>"

section \<open>Notions of the specification\<close>

text \<open>
  Upper-triangular order of the internal faces: inside a run of equal owners the neighbour
  ids ascend. \<open>arraysFit\<close> is what the post-pass expects of the arrays it reads (the
  comment of the source: \<^verbatim>\<open>len(owner) > nrIntFaces\<close>).
\<close>

definition upperTriangularOrder :: "exportState \<Rightarrow> bool" where
  "upperTriangularOrder st =
     list_all (\<lambda>faceId. owner st ! faceId = owner st ! (faceId + 1) \<longrightarrow>
                          neighbour st ! faceId \<le> neighbour st ! (faceId + 1))
       [0..<nat (nrIntFaces st) - 1]"

definition arraysFit :: "exportState \<Rightarrow> bool" where
  "arraysFit st =
     (nat (nrIntFaces st) < length (owner st) \<and>
      nat (nrIntFaces st) \<le> length (neighbour st) \<and>
      nat (nrIntFaces st) \<le> length (faces st))"

text \<open>
  A list of ranges \<open>(start, length)\<close> tiles the interval from \<open>lo\<close> to \<open>hi\<close>: every
  range starts where the one before it ends, no range is empty, the first starts at
  \<open>lo\<close> and the last ends at \<open>hi\<close>.
\<close>

fun tiles :: "int \<Rightarrow> (int \<times> int) list \<Rightarrow> int \<Rightarrow> bool" where
  "tiles lo [] hi = (lo = hi)"
| "tiles lo ((s, n) # rs) hi = (s = lo \<and> 0 < n \<and> tiles (lo + n) rs hi)"

text \<open>
  The declared face groups of a mesh, and the number of faces that the baffle groups among
  them hold.
\<close>

definition faceGroups :: "group list \<Rightarrow> group list" where
  "faceGroups grs = filter (\<lambda>gr. GetType gr = FACE) grs"

definition baffleTotal :: "mesh \<Rightarrow> group list \<Rightarrow> int" where
  "baffleTotal m grs =
     (\<Sum>gr \<leftarrow> faceGroups grs.
        if isGroupBaffle m gr (set (freeFaceIds m)) then int (length (GetIDs gr)) else 0)"


text \<open>The declared face groups without members, and the ids of all declared face groups.\<close>

definition emptyGroups :: "group list \<Rightarrow> group list" where
  "emptyGroups grs = filter (\<lambda>gr. GetIDs gr = []) (faceGroups grs)"



text \<open>
  The number of faces of a volume: the faces that the host reports before its first empty
  answer. \<open>cellFaceTotal\<close> is the sum over all volumes.
\<close>

definition cellFaceCount :: "mesh \<Rightarrow> int \<Rightarrow> nat" where
  "cellFaceCount m v = length (takeWhile (\<lambda>f. f \<noteq> []) (elemFaces m v))"

definition cellFaceTotal :: "mesh \<Rightarrow> int" where
  "cellFaceTotal m = (\<Sum>v \<leftarrow> volumeIds m. int (cellFaceCount m v))"





section \<open>Invariants of the boundary part\<close>

text \<open>
  What the loop over the groups keeps true of the patch table and the counters
  (\<open>groupInv\<close>), and of the count of free faces in plain groups (\<open>extInv\<close>).
\<close>

definition groupInv :: "mesh \<Rightarrow> exportState \<Rightarrow> bool" where
  "groupInv m st =
     (length (grpStartFace st) = length (grpNrFaces st) \<and>
      tiles (nrIntFaces st) (zip (grpStartFace st) (grpNrFaces st)) (nrIntFaces st + int (ofbcfid st)) \<and>
      nrFaces st - nrIntFaces st = nrExtFaces m + int (ofbcfid st) - nrExtFacesInGroups st \<and>
      length (grpStartFace st) \<le> length (grpNames st) \<and>
      length (bcFaces st) = ofbcfid st)"

definition extInv :: "mesh \<Rightarrow> exportState \<Rightarrow> bool" where
  "extInv m st =
     (\<exists>S. S \<subseteq> set (freeFaceIds m) \<and> int (card S) = nrExtFacesInGroups st \<and>
          (\<lambda>f. Key (GetElemNodes m f)) ` S \<subseteq> dom (bcFacesSorted st))"

text \<open>The patch table of a state tiles the boundary part of the face array.\<close>

definition rangesTile :: "exportState \<Rightarrow> bool" where
  "rangesTile st =
     (length (grpStartFace st) = length (grpNrFaces st) \<and>
      tiles (nrIntFaces st) (zip (grpStartFace st) (grpNrFaces st)) (nrFaces st))"

text \<open>Two states with the same counts, the same patch table and arrays of the same lengths.\<close>

definition sameTable :: "exportState \<Rightarrow> exportState \<Rightarrow> bool" where
  "sameTable st st' =
     (nrFaces st' = nrFaces st \<and> nrIntFaces st' = nrIntFaces st \<and> nrBCfaces st' = nrBCfaces st \<and>
      grpStartFace st' = grpStartFace st \<and> grpNrFaces st' = grpNrFaces st \<and>
      grpNames st' = grpNames st \<and> defGroup st' = defGroup st \<and>
      length (owner st') = length (owner st) \<and> length (neighbour st') = length (neighbour st))"

section \<open>Orientation of a new internal face\<close>











section \<open>The upper-triangular post-pass on ordered arrays\<close>

lemma slice_id:
  assumes "n \<le> length xs" "s \<le> n"
  shows "take s xs @ map (\<lambda>i. xs ! i) [s..<n] @ drop n xs = xs"
proof -
  have m: "map (\<lambda>i. xs ! i) [s..<n] = take (n - s) (drop s xs)"
    using assms by (intro nth_equalityI) (auto simp: nth_map_upt)
  have d: "drop n xs = drop (n - s) (drop s xs)"
    using assms by simp
  have "take s xs @ (take (n - s) (drop s xs) @ drop (n - s) (drop s xs)) = xs"
    by (simp only: append_take_drop_id)
  then show ?thesis by (simp only: m d)
qed

lemma sorted_run:
  fixes nb :: "int list"
  assumes "\<And>j. s \<le> j \<Longrightarrow> j + 1 < n \<Longrightarrow> nb ! j \<le> nb ! (j + 1)"
  shows "sorted (map (\<lambda>i. nb ! i) [s..<n])"
  unfolding sorted_iff_nth_Suc
  using assms by (auto simp: nth_map_upt)

lemma sortRun_id:
  assumes "\<And>j. sId \<le> j \<Longrightarrow> j < eId \<Longrightarrow> neighbour st ! j \<le> neighbour st ! (j + 1)"
    and "sId \<le> eId + 1"
  shows "sortRun py sId eId st = (if eId < length (neighbour st) \<and> eId < length (faces st) then Inr st else Inl IndexError)"
proof (cases "eId < length (neighbour st) \<and> eId < length (faces st)")
  case False
  then show ?thesis by (auto simp: sortRun_def Let_def)
next
  case True
  have s: "sort_key (\<lambda>i. neighbour st ! i) [sId..<eId + 1] = [sId..<eId + 1]"
    by (rule sort_key_id_if_sorted, rule sorted_run) (use assms(1) in auto)
  have n: "take sId (neighbour st) @ map (\<lambda>i. neighbour st ! i) [sId..<eId + 1] @ drop (eId + 1) (neighbour st) = neighbour st"
    using True assms(2) by (intro slice_id) auto
  have f: "take sId (faces st) @ map (\<lambda>i. faces st ! i) [sId..<eId + 1] @ drop (eId + 1) (faces st) = faces st"
    using True assms(2) by (intro slice_id) auto
  have "sortRun py sId eId st = Inr (st\<lparr>neighbour := neighbour st, faces := faces st\<rparr>)"
    unfolding sortRun_def Let_def using True by (simp only: s n f if_True if_False not_True_eq_False simp_thms split: if_splits)
  then show ?thesis using True by simp
qed

lemma reorderLoop_id:
  assumes ord: "\<And>j. j + 1 < n \<Longrightarrow> owner st ! j = owner st ! (j + 1) \<Longrightarrow> neighbour st ! j \<le> neighbour st ! (j + 1)"
    and "1 \<le> c" "c \<le> k + 1"
    and run: "\<And>j. k + 1 - c \<le> j \<Longrightarrow> j < k \<Longrightarrow> owner st ! j = owner st ! (j + 1)"
  shows "reorderLoop py [k..<n] c st = Inr st \<or>
         (reorderLoop py [k..<n] c st = Inl IndexError \<and>
          \<not> (n < length (owner st) \<and> n \<le> length (neighbour st) \<and> n \<le> length (faces st)))"
  using assms(2-)
proof (induction "n - k" arbitrary: k c)
  case 0
  then show ?case by simp
next
  case (Suc d)
  then have kn: "k < n" by simp
  then have upt: "[k..<n] = k # [Suc k..<n]" by (simp add: upt_conv_Cons)
  have d: "d = n - Suc k" using Suc.hyps(2) by simp
  show ?case
  proof (cases "k + 1 < length (owner st)")
    case False
    with kn show ?thesis by (simp add: upt)
  next
    case inrange: True
    show ?thesis
    proof (cases "owner st ! k = owner st ! (k + 1)")
      case True
      have "reorderLoop py [Suc k..<n] (c + 1) st = Inr st \<or>
         (reorderLoop py [Suc k..<n] (c + 1) st = Inl IndexError \<and>
          \<not> (n < length (owner st) \<and> n \<le> length (neighbour st) \<and> n \<le> length (faces st)))"
      proof (rule Suc.hyps(1) [OF d])
        show "1 \<le> c + 1" by simp
        show "c + 1 \<le> Suc k + 1" using Suc.prems by simp
        fix j assume "Suc k + 1 - (c + 1) \<le> j" "j < Suc k"
        then show "owner st ! j = owner st ! (j + 1)"
          using True Suc.prems(3) [of j] by (cases "j = k") auto
      qed
      with True inrange show ?thesis by (simp add: upt)
    next
      case False
      have rest: "reorderLoop py [Suc k..<n] 1 st = Inr st \<or>
         (reorderLoop py [Suc k..<n] 1 st = Inl IndexError \<and>
          \<not> (n < length (owner st) \<and> n \<le> length (neighbour st) \<and> n \<le> length (faces st)))"
        by (rule Suc.hyps(1) [OF d]) auto
      show ?thesis
      proof (cases "1 < c")
        case c: True
        have "sortRun py (k + 1 - c) k st = (if k < length (neighbour st) \<and> k < length (faces st) then Inr st else Inl IndexError)"
        proof (rule sortRun_id)
          fix j assume "k + 1 - c \<le> j" "j < k"
          then show "neighbour st ! j \<le> neighbour st ! (j + 1)"
            using ord [of j] Suc.prems(3) [of j] kn by simp
        qed simp
        with rest False inrange c kn show ?thesis by (auto simp: upt bindE_def)
      next
        case False
        with rest \<open>owner st ! k \<noteq> owner st ! (k + 1)\<close> inrange show ?thesis by (simp add: upt)
      qed
    qed
  qed
qed

text \<open>
  C9. On arrays that are in upper-triangular order the post-pass changes nothing, with
  either interpreter: whenever it returns, it returns the state it was given, and it does
  return when the arrays have the lengths it expects.
\<close>

theorem upperTriangular_noop:
  assumes "upperTriangularOrder st"
  shows "(arraysFit st \<longrightarrow> upperTriangular py st = Inr st) \<and>
         (\<forall>st'. upperTriangular py st = Inr st' \<longrightarrow> st' = st)"
proof -
  have "reorderLoop py [0..<nat (nrIntFaces st)] 1 st = Inr st \<or>
         (reorderLoop py [0..<nat (nrIntFaces st)] 1 st = Inl IndexError \<and>
          \<not> (nat (nrIntFaces st) < length (owner st) \<and> nat (nrIntFaces st) \<le> length (neighbour st)
             \<and> nat (nrIntFaces st) \<le> length (faces st)))"
  proof (rule reorderLoop_id)
    fix j assume "j + 1 < nat (nrIntFaces st)" "owner st ! j = owner st ! (j + 1)"
    then show "neighbour st ! j \<le> neighbour st ! (j + 1)"
      using assms by (auto simp: upperTriangularOrder_def list_all_iff)
  qed auto
  then show ?thesis by (auto simp: upperTriangular_def arraysFit_def)
qed

theorem upperTriangular_noop_witness:
  "upperTriangularOrder orderedArrays \<and> arraysFit orderedArrays \<and>
   upperTriangular 2 orderedArrays = Inr orderedArrays \<and>
   upperTriangular 3 orderedArrays = Inr orderedArrays"
proof -
  have h: "upperTriangularOrder orderedArrays"
    by code_simp
  have f: "arraysFit orderedArrays"
    by (simp add: arraysFit_def orderedArrays_def)
  from upperTriangular_noop [OF h, of 2] upperTriangular_noop [OF h, of 3] h f
  show ?thesis by simp
qed

section \<open>The upper-triangular post-pass on a mesh\<close>

text \<open>
  C1 on the three tetrahedra. Cell 0 owns the internal faces 0 and 1, with neighbours 2
  and 1. With Python 3 the post-pass leaves them in this order: the sorted list is
  dropped. With Python 2 it leaves them as well, because the first boundary face has owner
  0 too, so the loop ends inside the run; with the other order of the free faces the run
  ends at a boundary face of cell 1 and Python 2 sorts it.
\<close>

theorem upperTriangular_threeTets:
  "map_sum id (\<lambda>st. (nrIntFaces st, take 3 (owner st), neighbour st, faces st))
     (buildMesh py3 threeTets) = Inr (2, [0, 0, 0], [2, 1], [[1, 2, 4], [1, 3, 2]]) \<and>
   map_sum id (\<lambda>st. (nrIntFaces st, take 3 (owner st), neighbour st, faces st))
     (buildMesh py2 threeTets) = Inr (2, [0, 0, 0], [2, 1], [[1, 2, 4], [1, 3, 2]]) \<and>
   map_sum id (\<lambda>st. (nrIntFaces st, take 3 (owner st), neighbour st, faces st))
     (buildMesh py3 threeTetsB) = Inr (2, [0, 0, 1], [2, 1], [[1, 2, 4], [1, 3, 2]]) \<and>
   map_sum id (\<lambda>st. (nrIntFaces st, take 3 (owner st), neighbour st, faces st))
     (buildMesh py2 threeTetsB) = Inr (2, [0, 0, 1], [1, 2], [[1, 3, 2], [1, 2, 4]])"
  by code_simp

section \<open>The loop over the boundary groups\<close>

lemma tiles_snoc: "tiles lo (rs @ [(s, n)]) hi = (tiles lo rs s \<and> 0 < n \<and> hi = s + n)"
  by (induction rs arbitrary: lo) auto

lemma tiles_shift: "tiles lo rs hi \<Longrightarrow> tiles (lo - d) (map (\<lambda>(s, n). (s - d, n)) rs) (hi - d)"
proof (induction rs arbitrary: lo)
  case Nil
  then show ?case by simp
next
  case (Cons r rs)
  obtain s n where r: "r = (s, n)" by (cases r)
  from Cons.prems r have "tiles (lo + n) rs hi" "s = lo" "0 < n" by auto
  from Cons.IH [OF this(1)] have "tiles (lo - d + n) (map (\<lambda>(s, n). (s - d, n)) rs) (hi - d)"
    by (simp add: algebra_simps)
  with r \<open>s = lo\<close> \<open>0 < n\<close> show ?case by simp
qed

lemma zip_map_shift:
  "zip (map (\<lambda>x. x - d) xs) ys = map (\<lambda>(s, n). (s - d, n)) (zip xs ys)"
  by (induction xs arbitrary: ys) (auto split: list.splits simp: zip_Cons1)

lemma registerGroupFaces_frame:
  assumes "registerGroupFaces m g ids st = Inr st'"
  shows "nrBCfaces st' = nrBCfaces st \<and> nrFaces st' = nrFaces st \<and> nrIntFaces st' = nrIntFaces st \<and>
         faces st' = faces st \<and> facesSorted st' = facesSorted st \<and> owner st' = owner st \<and>
         neighbour st' = neighbour st \<and> grpStartFace st' = grpStartFace st \<and>
         grpNrFaces st' = grpNrFaces st \<and> grpNames st' = grpNames st \<and>
         nrExtFacesInGroups st' = nrExtFacesInGroups st \<and> defGroup st' = defGroup st \<and>
         offid st' = offid st \<and> ofvid st' = ofvid st"
  using assms
proof (induction ids arbitrary: st)
  case Nil
  then show ?case by simp
next
  case (Cons sfid ids)
  from Cons.prems have "bcFacesSorted st (Key (GetElemNodes m sfid)) = None"
    by (auto split: if_splits)
  with Cons.prems Cons.IH show ?case by fastforce
qed

lemma registerGroupFaces_effect:
  assumes "registerGroupFaces m g ids st = Inr st'"
  shows "bcFaces st' = bcFaces st @ map (GetElemNodes m) ids \<and>
         ofbcfid st' = ofbcfid st + length ids \<and>
         dom (bcFacesSorted st') = dom (bcFacesSorted st) \<union> (\<lambda>f. Key (GetElemNodes m f)) ` set ids \<and>
         distinct (map (\<lambda>f. Key (GetElemNodes m f)) ids) \<and>
         (\<lambda>f. Key (GetElemNodes m f)) ` set ids \<inter> dom (bcFacesSorted st) = {}"
  using assms
proof (induction ids arbitrary: st)
  case Nil
  then show ?case by simp
next
  case (Cons sfid ids)
  let ?k = "Key (GetElemNodes m sfid)"
  let ?st1 = "st\<lparr> bcFaces := bcFaces st @ [GetElemNodes m sfid],
                  bcFacesSorted := (bcFacesSorted st)(?k \<mapsto> ofbcfid st),
                  ofbcfid := ofbcfid st + 1 \<rparr>"
  from Cons.prems have fresh: "bcFacesSorted st ?k = None"
    by (auto split: if_splits)
  with Cons.prems have "registerGroupFaces m g ids ?st1 = Inr st'" by simp
  from Cons.IH [OF this] fresh show ?case by (auto simp: domIff)
qed


lemma registerGroupFaces_total:
  assumes "distinct (map (\<lambda>f. Key (GetElemNodes m f)) ids)"
    and "(\<lambda>f. Key (GetElemNodes m f)) ` set ids \<inter> dom (bcFacesSorted st) = {}"
  shows "\<exists>st'. registerGroupFaces m g ids st = Inr st'"
  using assms
proof (induction ids arbitrary: st)
  case Nil
  then show ?case by simp
next
  case (Cons sfid ids)
  let ?k = "Key (GetElemNodes m sfid)"
  let ?st1 = "st\<lparr> bcFaces := bcFaces st @ [GetElemNodes m sfid],
                  bcFacesSorted := (bcFacesSorted st)(?k \<mapsto> ofbcfid st),
                  ofbcfid := ofbcfid st + 1 \<rparr>"
  from Cons.prems have fresh: "bcFacesSorted st ?k = None" by (auto simp: domIff)
  have "\<exists>st'. registerGroupFaces m g ids ?st1 = Inr st'"
  proof (rule Cons.IH)
    show "distinct (map (\<lambda>f. Key (GetElemNodes m f)) ids)" using Cons.prems by simp
    show "(\<lambda>f. Key (GetElemNodes m f)) ` set ids \<inter> dom (bcFacesSorted ?st1) = {}"
      using Cons.prems by auto
  qed
  with fresh show ?case by simp
qed

lemma registerBaffleFaces_frame:
  "nrBCfaces (registerBaffleFaces m ids st) = nrBCfaces st \<and>
   nrFaces (registerBaffleFaces m ids st) = nrFaces st \<and>
   nrIntFaces (registerBaffleFaces m ids st) = nrIntFaces st \<and>
   faces (registerBaffleFaces m ids st) = faces st \<and>
   facesSorted (registerBaffleFaces m ids st) = facesSorted st \<and>
   owner (registerBaffleFaces m ids st) = owner st \<and>
   neighbour (registerBaffleFaces m ids st) = neighbour st \<and>
   grpStartFace (registerBaffleFaces m ids st) = grpStartFace st \<and>
   grpNrFaces (registerBaffleFaces m ids st) = grpNrFaces st \<and>
   grpNames (registerBaffleFaces m ids st) = grpNames st \<and>
   nrExtFacesInGroups (registerBaffleFaces m ids st) = nrExtFacesInGroups st \<and>
   defGroup (registerBaffleFaces m ids st) = defGroup st \<and>
   offid (registerBaffleFaces m ids st) = offid st \<and>
   ofvid (registerBaffleFaces m ids st) = ofvid st"
  by (induction ids arbitrary: st) auto

lemma registerBaffleFaces_effect:
  "bcFaces (registerBaffleFaces m ids st) = bcFaces st @ map (GetElemNodes m) ids \<and>
   ofbcfid (registerBaffleFaces m ids st) = ofbcfid st + length ids \<and>
   dom (bcFacesSorted (registerBaffleFaces m ids st)) =
     dom (bcFacesSorted st) \<union> (\<lambda>f. ReverseKey (PyList (GetElemNodes m f))) ` set ids"
  by (induction ids arbitrary: st) auto

lemma isBaffleIds_nonempty: "isBaffleIds ids E \<Longrightarrow> ids \<noteq> []"
  by (cases ids) auto

lemma isBaffleIds_iff: "isBaffleIds ids E \<longleftrightarrow> (\<exists>sid \<in> set ids. sid \<notin> E)"
  by (induction ids) auto

lemma processGroup_other: "GetType gr \<noteq> FACE \<Longrightarrow> processGroup m E gr st = Inr st"
  by (simp add: processGroup_def)

lemma processGroup_plain:
  assumes "GetType gr = FACE" "\<not> isGroupBaffle m gr E" "processGroup m E gr st = Inr st'"
  shows "grpNames st' = grpNames st @ [GetName gr] \<and>
         grpStartFace st' = grpStartFace st @
            (if GetIDs gr = [] then [] else [nrIntFaces st + int (ofbcfid st)]) \<and>
         grpNrFaces st' = grpNrFaces st @
            (if GetIDs gr = [] then [] else [int (length (GetIDs gr))]) \<and>
         nrBCfaces st' = nrBCfaces st \<and> nrFaces st' = nrFaces st \<and> nrIntFaces st' = nrIntFaces st \<and>
         nrExtFacesInGroups st' = nrExtFacesInGroups st + int (length (GetIDs gr)) \<and>
         ofbcfid st' = ofbcfid st + length (GetIDs gr) \<and>
         bcFaces st' = bcFaces st @ map (GetElemNodes m) (GetIDs gr) \<and>
         faces st' = faces st \<and> facesSorted st' = facesSorted st \<and> owner st' = owner st \<and>
         neighbour st' = neighbour st \<and> defGroup st' = defGroup st \<and>
         offid st' = offid st \<and> ofvid st' = ofvid st"
proof -
  let ?st1 = "st\<lparr> grpNames := grpNames st @ [GetName gr] \<rparr>"
  let ?st2 = "if int (length (GetIDs gr)) > 0
              then ?st1\<lparr> grpStartFace := grpStartFace ?st1 @ [nrIntFaces ?st1 + int (ofbcfid ?st1)],
                          grpNrFaces := grpNrFaces ?st1 @ [int (length (GetIDs gr))] \<rparr>
              else ?st1"
  from assms obtain st3 where r: "registerGroupFaces m (GetName gr) (GetIDs gr) ?st2 = Inr st3"
    and st': "st' = st3\<lparr> nrExtFacesInGroups := nrExtFacesInGroups st3 + int (length (GetIDs gr)) \<rparr>"
    by (auto simp: processGroup_def Let_def bindE_def split: sum.splits if_splits)
  from registerGroupFaces_frame [OF r] registerGroupFaces_effect [OF r] st'
  show ?thesis by (cases "GetIDs gr = []") simp_all
qed

lemma processGroup_baffle:
  assumes "GetType gr = FACE" "isGroupBaffle m gr E" "processGroup m E gr st = Inr st'"
  shows "grpNames st' = grpNames st @ [GetName gr] \<and>
         grpStartFace st' = map (\<lambda>x. x - int (length (GetIDs gr))) (grpStartFace st) @
            [nrIntFaces st - int (length (GetIDs gr)) + int (ofbcfid st)] \<and>
         grpNrFaces st' = grpNrFaces st @ [2 * int (length (GetIDs gr))] \<and>
         nrBCfaces st' = nrBCfaces st + int (length (GetIDs gr)) \<and>
         nrFaces st' = nrFaces st + int (length (GetIDs gr)) \<and>
         nrIntFaces st' = nrIntFaces st - int (length (GetIDs gr)) \<and>
         nrExtFacesInGroups st' = nrExtFacesInGroups st \<and>
         ofbcfid st' = ofbcfid st + 2 * length (GetIDs gr) \<and>
         bcFaces st' = bcFaces st @ map (GetElemNodes m) (GetIDs gr) @ map (GetElemNodes m) (GetIDs gr) \<and>
         faces st' = faces st \<and> facesSorted st' = facesSorted st \<and> owner st' = owner st \<and>
         neighbour st' = neighbour st \<and> defGroup st' = defGroup st \<and>
         offid st' = offid st \<and> ofvid st' = ofvid st"
proof -
  have ne: "GetIDs gr \<noteq> []"
    using assms(2) by (auto simp: isGroupBaffle_def dest: isBaffleIds_nonempty)
  let ?nr = "int (length (GetIDs gr))"
  let ?st2 = "st\<lparr> grpNames := grpNames st @ [GetName gr],
                  grpStartFace := grpStartFace st @ [nrIntFaces st + int (ofbcfid st)],
                  grpNrFaces := grpNrFaces st @ [?nr] \<rparr>"
  from assms ne obtain st3 where r: "registerGroupFaces m (GetName gr) (GetIDs gr) ?st2 = Inr st3"
    and st': "st' = registerBaffleFaces m (GetIDs gr)
                (st3\<lparr> nrBCfaces := nrBCfaces st3 + ?nr, nrFaces := nrFaces st3 + ?nr,
                      nrIntFaces := nrIntFaces st3 - ?nr,
                      grpStartFace := map (\<lambda>x. x - ?nr) (grpStartFace st3),
                      grpNrFaces := (grpNrFaces st3)[length (grpNrFaces st3) - 1 := ?nr * 2] \<rparr>)"
    by (auto simp: processGroup_def Let_def bindE_def split: sum.splits if_splits)
  from registerGroupFaces_frame [OF r] registerGroupFaces_effect [OF r]
  show ?thesis
    unfolding st'
    by (simp add: registerBaffleFaces_frame registerBaffleFaces_effect algebra_simps)
qed

lemma processGroup_keys:
  assumes "GetType gr = FACE" "processGroup m E gr st = Inr st'"
  shows "distinct (map (\<lambda>f. Key (GetElemNodes m f)) (GetIDs gr)) \<and>
         (\<lambda>f. Key (GetElemNodes m f)) ` set (GetIDs gr) \<inter> dom (bcFacesSorted st) = {} \<and>
         dom (bcFacesSorted st') = dom (bcFacesSorted st) \<union>
            (\<lambda>f. Key (GetElemNodes m f)) ` set (GetIDs gr) \<union>
            (if isGroupBaffle m gr E
             then (\<lambda>f. ReverseKey (PyList (GetElemNodes m f))) ` set (GetIDs gr) else {})"
proof -
  let ?st1 = "st\<lparr> grpNames := grpNames st @ [GetName gr] \<rparr>"
  let ?st2 = "if int (length (GetIDs gr)) > 0
              then ?st1\<lparr> grpStartFace := grpStartFace ?st1 @ [nrIntFaces ?st1 + int (ofbcfid ?st1)],
                          grpNrFaces := grpNrFaces ?st1 @ [int (length (GetIDs gr))] \<rparr>
              else ?st1"
  have d2: "bcFacesSorted ?st2 = bcFacesSorted st" by simp
  from assms obtain st3 where r: "registerGroupFaces m (GetName gr) (GetIDs gr) ?st2 = Inr st3"
    by (auto simp: processGroup_def Let_def bindE_def split: sum.splits)
  note eff = registerGroupFaces_effect [OF r, unfolded d2]
  show ?thesis
  proof (cases "isGroupBaffle m gr E")
    case False
    with assms r have "st' = st3\<lparr> nrExtFacesInGroups := nrExtFacesInGroups st3 + int (length (GetIDs gr)) \<rparr>"
      by (auto simp: processGroup_def Let_def bindE_def split: if_splits)
    with eff False show ?thesis by simp
  next
    case True
    with assms r obtain st4 where "st' = registerBaffleFaces m (GetIDs gr) st4"
      and "bcFacesSorted st4 = bcFacesSorted st3"
      by (auto simp: processGroup_def Let_def bindE_def split: if_splits)
    with eff True show ?thesis by (simp add: registerBaffleFaces_effect)
  qed
qed

lemma groupInv_init: "groupInv m (initState m)"
  by (simp add: groupInv_def initState_def Let_def)

lemma groupInv_step:
  assumes "groupInv m st" "processGroup m E gr st = Inr st'"
  shows "groupInv m st'"
proof (cases "GetType gr = FACE")
  case False
  with assms show ?thesis by (simp add: processGroup_other)
next
  case face: True
  show ?thesis
  proof (cases "isGroupBaffle m gr E")
    case False
    note p = processGroup_plain [OF face False assms(2)]
    show ?thesis
    proof (cases "GetIDs gr = []")
      case True
      with p assms(1) show ?thesis by (simp add: groupInv_def)
    next
      case False
      with p assms(1) show ?thesis by (simp add: groupInv_def tiles_snoc)
    qed
  next
    case True
    note p = processGroup_baffle [OF face True assms(2)]
    have ne: "GetIDs gr \<noteq> []"
      using True by (auto simp: isGroupBaffle_def dest: isBaffleIds_nonempty)
    let ?nr = "int (length (GetIDs gr))"
    from assms(1) have t: "tiles (nrIntFaces st) (zip (grpStartFace st) (grpNrFaces st)) (nrIntFaces st + int (ofbcfid st))"
      and l: "length (grpStartFace st) = length (grpNrFaces st)"
      by (simp_all add: groupInv_def)
    have "tiles (nrIntFaces st - ?nr) (zip (map (\<lambda>x. x - ?nr) (grpStartFace st)) (grpNrFaces st))
            (nrIntFaces st + int (ofbcfid st) - ?nr)"
      using tiles_shift [OF t, of ?nr] by (simp add: zip_map_shift)
    moreover have "nrIntFaces st' + int (ofbcfid st') =
        nrIntFaces st - ?nr + int (ofbcfid st) + 2 * ?nr"
      using p by simp
    moreover have "nrIntFaces st + int (ofbcfid st) - ?nr = nrIntFaces st - ?nr + int (ofbcfid st)"
      by simp
    ultimately have "tiles (nrIntFaces st') (zip (grpStartFace st') (grpNrFaces st')) (nrIntFaces st' + int (ofbcfid st'))"
      using p l ne by (simp add: tiles_snoc)
    with p assms(1) show ?thesis by (simp add: groupInv_def)
  qed
qed

lemma groupInv_loop:
  assumes "groupInv m st" "groupsLoop m E grs st = Inr st'"
  shows "groupInv m st'"
  using assms
proof (induction grs arbitrary: st)
  case Nil
  then show ?case by simp
next
  case (Cons gr grs)
  from Cons.prems(2) obtain st1 where s: "processGroup m E gr st = Inr st1"
    and r: "groupsLoop m E grs st1 = Inr st'"
    by (auto simp: bindE_def split: sum.splits)
  from Cons.IH [OF groupInv_step [OF Cons.prems(1) s] r] show ?case .
qed

lemma extInv_init: "extInv m (initState m)"
  by (auto simp: extInv_def initState_def Let_def)

lemma extInv_step:
  assumes "extInv m st" "processGroup m (set (freeFaceIds m)) gr st = Inr st'"
  shows "extInv m st'"
proof (cases "GetType gr = FACE")
  case False
  with assms show ?thesis by (simp add: processGroup_other)
next
  case face: True
  note k = processGroup_keys [OF face assms(2)]
  from assms(1) obtain S where S: "S \<subseteq> set (freeFaceIds m)" "int (card S) = nrExtFacesInGroups st"
    "(\<lambda>f. Key (GetElemNodes m f)) ` S \<subseteq> dom (bcFacesSorted st)"
    by (auto simp: extInv_def)
  show ?thesis
  proof (cases "isGroupBaffle m gr (set (freeFaceIds m))")
    case True
    from processGroup_baffle [OF face True assms(2)] k S show ?thesis
      unfolding extInv_def by (intro exI [of _ S]) auto
  next
    case False
    note p = processGroup_plain [OF face False assms(2)]
    from False have sub: "set (GetIDs gr) \<subseteq> set (freeFaceIds m)"
      by (auto simp: isGroupBaffle_def isBaffleIds_iff)
    from k have dist: "distinct (GetIDs gr)" by (auto simp: distinct_map)
    have disj: "S \<inter> set (GetIDs gr) = {}" using k S(3) by auto
    have fin: "finite S" using S(1) by (rule finite_subset) simp
    have "card (S \<union> set (GetIDs gr)) = card S + length (GetIDs gr)"
      using fin disj dist by (simp add: card_Un_disjoint distinct_card)
    with p k S sub show ?thesis
      unfolding extInv_def by (intro exI [of _ "S \<union> set (GetIDs gr)"]) auto
  qed
qed

lemma extInv_loop:
  assumes "extInv m st" "groupsLoop m (set (freeFaceIds m)) grs st = Inr st'"
  shows "extInv m st'"
  using assms
proof (induction grs arbitrary: st)
  case Nil
  then show ?case by simp
next
  case (Cons gr grs)
  from Cons.prems(2) obtain st1 where s: "processGroup m (set (freeFaceIds m)) gr st = Inr st1"
    and r: "groupsLoop m (set (freeFaceIds m)) grs st1 = Inr st'"
    by (auto simp: bindE_def split: sum.splits)
  from Cons.IH [OF extInv_step [OF Cons.prems(1) s] r] show ?case .
qed

lemma extInv_le: "extInv m st \<Longrightarrow> nrExtFacesInGroups st \<le> nrExtFaces m"
proof -
  assume "extInv m st"
  then obtain S where S: "S \<subseteq> set (freeFaceIds m)" "int (card S) = nrExtFacesInGroups st"
    by (auto simp: extInv_def)
  have "card S \<le> card (set (freeFaceIds m))" using S(1) by (intro card_mono) auto
  with S(2) show ?thesis
    by (simp add: nrExtFaces_def extFacesList_def length_remdups_card_conv)
qed

section \<open>The catch-all group and the later passes\<close>

lemma defaultFacesLoop_frame:
  assumes "defaultFacesLoop m fs st acc = (st', ids)"
  shows "nrBCfaces st' = nrBCfaces st \<and> nrFaces st' = nrFaces st \<and> nrIntFaces st' = nrIntFaces st \<and>
         faces st' = faces st \<and> facesSorted st' = facesSorted st \<and> owner st' = owner st \<and>
         neighbour st' = neighbour st \<and> grpStartFace st' = grpStartFace st \<and>
         grpNrFaces st' = grpNrFaces st \<and> grpNames st' = grpNames st \<and>
         nrExtFacesInGroups st' = nrExtFacesInGroups st \<and> defGroup st' = defGroup st \<and>
         offid st' = offid st \<and> ofvid st' = ofvid st"
  using assms
proof (induction fs arbitrary: st acc)
  case Nil
  then show ?case by simp
next
  case (Cons f fs)
  show ?case
  proof (cases "bcFacesSorted st (Key (GetElemNodes m f)) = None")
    case True
    with Cons.prems Cons.IH show ?thesis by fastforce
  next
    case False
    with Cons.prems Cons.IH show ?thesis by fastforce
  qed
qed

lemma addDefaultPatches_counts:
  "nrFaces (addDefaultPatches m st) = nrFaces st \<and>
   nrIntFaces (addDefaultPatches m st) = nrIntFaces st \<and>
   nrBCfaces (addDefaultPatches m st) = nrBCfaces st"
proof (cases "nrExtFacesInGroups st < nrExtFaces m")
  case False
  then show ?thesis by (simp add: addDefaultPatches_def)
next
  case True
  let ?st1 = "st\<lparr> grpStartFace := grpStartFace st @ [nrIntFaces st + int (ofbcfid st)],
                  grpNrFaces := grpNrFaces st @ [nrExtFaces m - nrExtFacesInGroups st] \<rparr>"
  obtain st2 ids where d: "defaultFacesLoop m (extFacesList m) ?st1 [] = (st2, ids)"
    by (cases "defaultFacesLoop m (extFacesList m) ?st1 []")
  from defaultFacesLoop_frame [OF d] True d show ?thesis
    by (simp add: addDefaultPatches_def)
qed

lemma addDefaultPatches_tiles:
  assumes "groupInv m st" "extInv m st"
  shows "rangesTile (addDefaultPatches m st) \<and>
         length (grpStartFace (addDefaultPatches m st)) \<le> length (grpNames (addDefaultPatches m st))"
proof (cases "nrExtFacesInGroups st < nrExtFaces m")
  case False
  with extInv_le [OF assms(2)] have "nrExtFacesInGroups st = nrExtFaces m" by simp
  with assms(1) have "nrIntFaces st + int (ofbcfid st) = nrFaces st"
    by (simp add: groupInv_def)
  with assms(1) False show ?thesis
    by (auto simp: addDefaultPatches_def groupInv_def rangesTile_def)
next
  case True
  let ?st1 = "st\<lparr> grpStartFace := grpStartFace st @ [nrIntFaces st + int (ofbcfid st)],
                  grpNrFaces := grpNrFaces st @ [nrExtFaces m - nrExtFacesInGroups st] \<rparr>"
  obtain st2 ids where d: "defaultFacesLoop m (extFacesList m) ?st1 [] = (st2, ids)"
    by (cases "defaultFacesLoop m (extFacesList m) ?st1 []")
  note f = defaultFacesLoop_frame [OF d]
  have "nrIntFaces st + int (ofbcfid st) + (nrExtFaces m - nrExtFacesInGroups st) = nrFaces st"
    using assms(1) by (simp add: groupInv_def)
  with f assms(1) True d show ?thesis
    by (simp add: addDefaultPatches_def groupInv_def rangesTile_def tiles_snoc)
qed

lemma boundaryPass_tiles:
  assumes "boundaryPass m = Inr st"
  shows "rangesTile st \<and> length (grpStartFace st) \<le> length (grpNames st)"
proof -
  from assms obtain st0 where g: "groupsLoop m (set (freeFaceIds m)) (GetGroups m) (initState m) = Inr st0"
    and st: "st = addDefaultPatches m st0"
    by (auto simp: boundaryPass_def bindE_def split: sum.splits)
  from addDefaultPatches_tiles [OF groupInv_loop [OF groupInv_init g] extInv_loop [OF extInv_init g]] st
  show ?thesis by simp
qed

lemma sameTable_refl: "sameTable st st"
  by (simp add: sameTable_def)

lemma sameTable_trans: "sameTable a b \<Longrightarrow> sameTable b c \<Longrightarrow> sameTable a c"
  by (simp add: sameTable_def)

lemma newInternalFace_table:
  "newInternalFace vfy m nodes fnodes key st = Inr st' \<Longrightarrow> sameTable st st'"
  by (auto simp: newInternalFace_def bindE_def sameTable_def split: sum.splits if_splits)

lemma boundaryFace_table:
  "boundaryFace vfy m nodes fnodes key bcind st = Inr st' \<Longrightarrow> sameTable st st'"
  unfolding boundaryFace_def
  by (auto simp: sameTable_def dest: newInternalFace_table split: option.splits if_splits)

lemma faceStep_table:
  "faceStep vfy m nodes fnodes key st = Inr st' \<Longrightarrow> sameTable st st'"
  unfolding faceStep_def
  by (auto simp: sameTable_def dest: newInternalFace_table boundaryFace_table
           split: option.splits if_splits)

lemma facesLoop_table:
  "facesLoop vfy m nodes fks st = Inr st' \<Longrightarrow> sameTable st st'"
proof (induction fks arbitrary: st)
  case Nil
  then show ?case by (simp add: sameTable_refl)
next
  case (Cons fk fks)
  obtain f k where fk: "fk = (f, k)" by (cases fk)
  from Cons.prems fk obtain st1 where a: "faceStep vfy m nodes f k st = Inr st1"
    and b: "facesLoop vfy m nodes fks st1 = Inr st'"
    by (auto simp: bindE_def split: sum.splits)
  from sameTable_trans [OF faceStep_table [OF a] Cons.IH [OF b]] show ?case .
qed

lemma cellsLoop_table:
  "cellsLoop vfy m bs st = Inr st' \<Longrightarrow> sameTable st st'"
proof (induction bs arbitrary: st)
  case Nil
  then show ?case by (simp add: sameTable_refl)
next
  case (Cons b bs)
  from Cons.prems obtain st1 where a: "facesLoop vfy m (GetElemNodes m (buf_v b)) (zip (buf_faces b) (buf_keys b)) st = Inr st1"
    and c: "cellsLoop vfy m bs (st1\<lparr> ofvid := ofvid st1 + 1 \<rparr>) = Inr st'"
    by (auto simp: bindE_def split: sum.splits)
  have "sameTable st1 (st1\<lparr> ofvid := ofvid st1 + 1 \<rparr>)" by (simp add: sameTable_def)
  from sameTable_trans [OF facesLoop_table [OF a] sameTable_trans [OF this Cons.IH [OF c]]]
  show ?case .
qed

lemma sortRun_table:
  assumes "sortRun py sId eId st = Inr st'" "sId \<le> eId + 1"
  shows "sameTable st st'"
proof -
  have "length (sort_key (\<lambda>i. neighbour st ! i) [sId..<eId + 1]) = eId + 1 - sId"
    by (simp del: upt_Suc)
  with assms show ?thesis
    by (auto simp: sortRun_def Let_def sameTable_def simp del: upt_Suc split: if_splits)
qed

lemma reorderLoop_table:
  "reorderLoop py fids c st = Inr st' \<Longrightarrow> sameTable st st'"
proof (induction fids arbitrary: c st)
  case Nil
  then show ?case by (simp add: sameTable_refl)
next
  case (Cons faceId fids)
  show ?case
  proof (cases "owner st ! faceId \<noteq> owner st ! (faceId + 1) \<and> 1 < c")
    case True
    with Cons.prems obtain st1 where a: "sortRun py (faceId + 1 - c) faceId st = Inr st1"
      and b: "reorderLoop py fids 1 st1 = Inr st'"
      by (auto simp: bindE_def split: sum.splits if_splits)
    have "sameTable st st1" by (rule sortRun_table [OF a]) simp
    from sameTable_trans [OF this Cons.IH [OF b]] show ?thesis .
  next
    case False
    with Cons.prems Cons.IH show ?thesis by (auto split: if_splits)
  qed
qed

lemma buildMesh_table:
  assumes "buildMesh e m = Inr st"
  shows "\<exists>st0. boundaryPass m = Inr st0 \<and> sameTable (initArrays st0) st"
proof -
  from assms obtain st0 st1 where a: "boundaryPass m = Inr st0"
    and b: "cellPass (env_verify e) m st0 = Inr st1"
    and c: "upperTriangular (env_pyMajor e) st1 = Inr st"
    by (auto simp: buildMesh_def bindE_def split: sum.splits)
  from b have "sameTable (initArrays st0) st1"
    by (auto simp: cellPass_def dest: cellsLoop_table)
  moreover from c have "sameTable st1 st"
    by (auto simp: upperTriangular_def dest: reorderLoop_table)
  ultimately show ?thesis using a sameTable_trans by blast
qed

section \<open>The boundary file\<close>





lemma writePatches_None:
  assumes "writePatches bnd st ind names acc = (ps, None)"
  shows "length names \<le> length bnd - ind \<and>
         length names \<le> length (grpNrFaces st) - ind \<and>
         length names \<le> length (grpStartFace st) - ind \<and>
         map patchName ps = map patchName acc @ names \<and>
         map nFaces ps = map nFaces acc @ take (length names) (drop ind (grpNrFaces st)) \<and>
         map startFace ps = map startFace acc @ take (length names) (drop ind (grpStartFace st)) \<and>
         map patchType ps = map patchType acc @ take (length names) (drop ind bnd)"
  using assms
proof (induction names arbitrary: ind acc)
  case Nil
  then show ?case by simp
next
  case (Cons gname names)
  from Cons.prems have ok: "ind < length bnd" "ind < length (grpNrFaces st)" "ind < length (grpStartFace st)"
    by (auto split: if_splits)
  let ?p = "\<lparr> patchName = gname, patchType = bnd ! ind,
              nFaces = grpNrFaces st ! ind, startFace = grpStartFace st ! ind \<rparr>"
  from Cons.prems ok have "writePatches bnd st (ind + 1) names (acc @ [?p]) = (ps, None)" by simp
  note ih = Cons.IH [OF this]
  from ih ok have "length (gname # names) \<le> length bnd - ind"
    "length (gname # names) \<le> length (grpNrFaces st) - ind"
    "length (gname # names) \<le> length (grpStartFace st) - ind"
    by (simp; linarith)+
  with ih ok show ?case
    by (simp add: Cons_nth_drop_Suc [symmetric])
qed

lemma writePatches_error:
  "writePatches bnd st ind names acc = (ps, Some err) \<Longrightarrow> err = IndexError"
  by (induction names arbitrary: ind acc) (auto split: if_splits)


lemma groupsLoop_names:
  assumes "groupsLoop m E grs st = Inr st'"
  shows "grpNames st' = grpNames st @ map GetName (faceGroups grs) \<and> defGroup st' = defGroup st"
  using assms
proof (induction grs arbitrary: st)
  case Nil
  then show ?case by (simp add: faceGroups_def)
next
  case (Cons gr grs)
  from Cons.prems obtain st1 where s: "processGroup m E gr st = Inr st1"
    and r: "groupsLoop m E grs st1 = Inr st'"
    by (auto simp: bindE_def split: sum.splits)
  have "grpNames st1 = grpNames st @ map GetName (faceGroups [gr]) \<and> defGroup st1 = defGroup st"
  proof (cases "GetType gr = FACE")
    case False
    with s show ?thesis by (simp add: processGroup_other faceGroups_def)
  next
    case True
    then show ?thesis
      using processGroup_plain [OF True _ s] processGroup_baffle [OF True _ s]
      by (cases "isGroupBaffle m gr E") (simp_all add: faceGroups_def)
  qed
  with Cons.IH [OF r] show ?case by (simp add: faceGroups_def)
qed

lemma addDefaultPatches_names:
  assumes "defGroup st = None"
  shows "grpNames (addDefaultPatches m st) = grpNames st @
           (case defGroup (addDefaultPatches m st) of None \<Rightarrow> [] | Some (name, ids) \<Rightarrow> [name])"
proof (cases "nrExtFacesInGroups st < nrExtFaces m")
  case False
  with assms show ?thesis by (simp add: addDefaultPatches_def)
next
  case True
  let ?st1 = "st\<lparr> grpStartFace := grpStartFace st @ [nrIntFaces st + int (ofbcfid st)],
                  grpNrFaces := grpNrFaces st @ [nrExtFaces m - nrExtFacesInGroups st] \<rparr>"
  obtain st2 ids where d: "defaultFacesLoop m (extFacesList m) ?st1 [] = (st2, ids)"
    by (cases "defaultFacesLoop m (extFacesList m) ?st1 []")
  from defaultFacesLoop_frame [OF d] True d show ?thesis
    by (simp add: addDefaultPatches_def)
qed

lemma boundaryPass_names:
  assumes "boundaryPass m = Inr st"
  shows "grpNames st = map GetName (faceGroups (GetGroups m)) @
           (case defGroup st of None \<Rightarrow> [] | Some (name, ids) \<Rightarrow> [name])"
proof -
  from assms obtain st0 where g: "groupsLoop m (set (freeFaceIds m)) (GetGroups m) (initState m) = Inr st0"
    and st: "st = addDefaultPatches m st0"
    by (auto simp: boundaryPass_def bindE_def split: sum.splits)
  from groupsLoop_names [OF g] have "grpNames st0 = map GetName (faceGroups (GetGroups m))"
    "defGroup st0 = None"
    by (simp_all add: initState_def Let_def)
  with addDefaultPatches_names [of st0 m] st show ?thesis by simp
qed

lemma exportToFoam_Finished:
  assumes "exportToFoam e m = (files, Finished)"
  shows "\<exists>st ps. buildMesh e m = Inr st \<and>
           writePatches (env_bound e) st 0 (grpNames st) [] = (ps, None) \<and>
           fileBoundary files = Some (length (grpStartFace st), ps) \<and>
           fileFaces files = Some (nrFaces st, map (map (\<lambda>p. p - 1)) (faces st @ bcFaces st)) \<and>
           fileOwner files = Some ((int (length (nodeIds m)), ofvid st, nrFaces st, nrIntFaces st), owner st) \<and>
           fileNeighbour files = Some ((int (length (nodeIds m)), ofvid st, nrFaces st, nrIntFaces st), neighbour st)"
proof -
  from assms obtain st where b: "buildMesh e m = Inr st" and w: "writeFiles e m st = (files, Finished)"
    by (auto simp: exportToFoam_def split: if_splits sum.splits)
  obtain ps r where p: "writePatches (env_bound e) st 0 (grpNames st) [] = (ps, r)"
    by (cases "writePatches (env_bound e) st 0 (grpNames st) []")
  from w p have r: "r = None"
    by (cases r) (auto simp: writeFiles_def Let_def)
  from w p r have "fileBoundary files = Some (length (grpStartFace st), ps) \<and>
           fileFaces files = Some (nrFaces st, map (map (\<lambda>p. p - 1)) (faces st @ bcFaces st)) \<and>
           fileOwner files = Some ((int (length (nodeIds m)), ofvid st, nrFaces st, nrIntFaces st), owner st) \<and>
           fileNeighbour files = Some ((int (length (nodeIds m)), ofvid st, nrFaces st, nrIntFaces st), neighbour st)"
    by (auto simp: writeFiles_def Let_def noFiles_def split: if_splits prod.splits option.splits)
  with b p r show ?thesis by blast
qed



section \<open>A face group without members\<close>

lemma groupsLoop_lengths:
  assumes "groupsLoop m E grs st = Inr st'"
  shows "length (grpNames st') + length (grpStartFace st) =
         length (grpStartFace st') + length (grpNames st) + length (emptyGroups grs)"
  using assms
proof (induction grs arbitrary: st)
  case Nil
  then show ?case by (simp add: emptyGroups_def faceGroups_def)
next
  case (Cons gr grs)
  from Cons.prems obtain st1 where s: "processGroup m E gr st = Inr st1"
    and r: "groupsLoop m E grs st1 = Inr st'"
    by (auto simp: bindE_def split: sum.splits)
  have "length (grpNames st1) + length (grpStartFace st) =
         length (grpStartFace st1) + length (grpNames st) + length (emptyGroups [gr])"
  proof (cases "GetType gr = FACE")
    case False
    with s show ?thesis by (simp add: processGroup_other emptyGroups_def faceGroups_def)
  next
    case True
    show ?thesis
    proof (cases "isGroupBaffle m gr E")
      case False
      from processGroup_plain [OF True False s] True show ?thesis
        by (simp add: emptyGroups_def faceGroups_def)
    next
      case b: True
      then have "GetIDs gr \<noteq> []"
        by (auto simp: isGroupBaffle_def dest: isBaffleIds_nonempty)
      with processGroup_baffle [OF True b s] True show ?thesis
        by (simp add: emptyGroups_def faceGroups_def)
    qed
  qed
  moreover have "emptyGroups (gr # grs) = emptyGroups [gr] @ emptyGroups grs"
    by (simp add: emptyGroups_def faceGroups_def)
  ultimately show ?case using Cons.IH [OF r] by simp
qed

lemma addDefaultPatches_lengths:
  "length (grpNames (addDefaultPatches m st)) + length (grpStartFace st) =
   length (grpStartFace (addDefaultPatches m st)) + length (grpNames st)"
proof (cases "nrExtFacesInGroups st < nrExtFaces m")
  case False
  then show ?thesis by (simp add: addDefaultPatches_def)
next
  case True
  let ?st1 = "st\<lparr> grpStartFace := grpStartFace st @ [nrIntFaces st + int (ofbcfid st)],
                  grpNrFaces := grpNrFaces st @ [nrExtFaces m - nrExtFacesInGroups st] \<rparr>"
  obtain st2 ids where d: "defaultFacesLoop m (extFacesList m) ?st1 [] = (st2, ids)"
    by (cases "defaultFacesLoop m (extFacesList m) ?st1 []")
  from defaultFacesLoop_frame [OF d] True d show ?thesis
    by (simp add: addDefaultPatches_def)
qed

lemma buildMesh_lengths:
  assumes "buildMesh e m = Inr st"
  shows "length (grpNames st) = length (grpStartFace st) + length (emptyGroups (GetGroups m)) \<and>
         length (grpNrFaces st) = length (grpStartFace st)"
proof -
  from buildMesh_table [OF assms] obtain st1 where
    bp: "boundaryPass m = Inr st1" and same: "sameTable (initArrays st1) st" by blast
  from bp obtain st0 where g: "groupsLoop m (set (freeFaceIds m)) (GetGroups m) (initState m) = Inr st0"
    and st1: "st1 = addDefaultPatches m st0"
    by (auto simp: boundaryPass_def bindE_def split: sum.splits)
  from groupsLoop_lengths [OF g] have
    "length (grpNames st0) = length (grpStartFace st0) + length (emptyGroups (GetGroups m))"
    by (simp add: initState_def Let_def)
  with addDefaultPatches_lengths [of m st0] st1 have
    "length (grpNames st1) = length (grpStartFace st1) + length (emptyGroups (GetGroups m))"
    by simp
  moreover from boundaryPass_tiles [OF bp] have "length (grpNrFaces st1) = length (grpStartFace st1)"
    by (simp add: rangesTile_def)
  ultimately show ?thesis using same by (simp add: sameTable_def initArrays_def)
qed

lemma writePatches_length:
  "writePatches bnd st ind names acc = (ps, r) \<Longrightarrow>
     length ps \<le> length acc + (length (grpNrFaces st) - ind)"
proof (induction names arbitrary: ind acc)
  case Nil
  then show ?case by simp
next
  case (Cons gname names)
  show ?case
  proof (cases "ind < length bnd \<and> ind < length (grpNrFaces st) \<and> ind < length (grpStartFace st)")
    case True
    with Cons.prems Cons.IH [of "ind + 1" "acc @ [\<lparr> patchName = gname, patchType = bnd ! ind,
              nFaces = grpNrFaces st ! ind, startFace = grpStartFace st ! ind \<rparr>]"]
    show ?thesis by (simp; linarith)
  next
    case False
    with Cons.prems show ?thesis by auto
  qed
qed

text \<open>
  C10 (as amended). For a mesh with a declared face group without members the export never
  completes. When the passes before the writing raise nothing, the name list holds the
  name of the group, the start-face and face-count lists are shorter than the name list,
  the patch count written to the boundary file is smaller than the number of names, and
  the loop over the names raises \<^verbatim>\<open>IndexError\<close> after at most as many entries as the
  face-count list has.
\<close>

theorem empty_group_IndexError:
  assumes "gr \<in> set (GetGroups m)" "GetType gr = FACE" "GetIDs gr = []"
  shows "snd (exportToFoam e m) \<noteq> Finished \<and>
         (\<forall>st. buildMesh e m = Inr st \<longrightarrow>
            GetName gr \<in> set (grpNames st) \<and>
            length (grpStartFace st) = length (grpNrFaces st) \<and>
            length (grpNrFaces st) < length (grpNames st) \<and>
            (env_canOpen e \<longrightarrow>
               snd (exportToFoam e m) = Raised IndexError \<and>
               (\<exists>ps. fileBoundary (fst (exportToFoam e m)) = Some (length (grpStartFace st), ps) \<and>
                     length ps \<le> length (grpNrFaces st))))"
proof -
  from assms have ne: "emptyGroups (GetGroups m) \<noteq> []"
    by (auto simp: emptyGroups_def faceGroups_def filter_empty_conv)
  have main: "GetName gr \<in> set (grpNames st) \<and>
            length (grpStartFace st) = length (grpNrFaces st) \<and>
            length (grpNrFaces st) < length (grpNames st) \<and>
            (env_canOpen e \<longrightarrow>
               snd (exportToFoam e m) = Raised IndexError \<and>
               (\<exists>ps. fileBoundary (fst (exportToFoam e m)) = Some (length (grpStartFace st), ps) \<and>
                     length ps \<le> length (grpNrFaces st)))"
    if b: "buildMesh e m = Inr st" for st
  proof -
    from buildMesh_lengths [OF b] ne have
      l1: "length (grpNrFaces st) = length (grpStartFace st)" and
      l2: "length (grpNrFaces st) < length (grpNames st)"
      by (simp_all add: length_greater_0_conv [symmetric] del: length_greater_0_conv)
    from buildMesh_table [OF b] obtain st1 where
      bp: "boundaryPass m = Inr st1" and same: "sameTable (initArrays st1) st" by blast
    from boundaryPass_names [OF bp] same assms have name: "GetName gr \<in> set (grpNames st)"
      by (auto simp: sameTable_def initArrays_def faceGroups_def)
    obtain ps r where w: "writePatches (env_bound e) st 0 (grpNames st) [] = (ps, r)"
      by (cases "writePatches (env_bound e) st 0 (grpNames st) []")
    have "r \<noteq> None"
    proof
      assume "r = None"
      with writePatches_None [of "env_bound e" st 0 "grpNames st" "[]" ps] w l2 show False by simp
    qed
    then obtain err where r: "r = Some err" by (cases r) auto
    with w writePatches_error have err: "err = IndexError" by blast
    from writePatches_length [OF w] have lps: "length ps \<le> length (grpNrFaces st)" by simp
    have "exportToFoam e m = (noFiles
            \<lparr> filePoints := Some (map (GetNodeXYZ m) (nodeIds m)),
              fileFaces := Some (nrFaces st, map (map (\<lambda>p. p - 1)) (faces st @ bcFaces st)),
              fileOwner := Some ((int (length (nodeIds m)), ofvid st, nrFaces st, nrIntFaces st), owner st),
              fileNeighbour := Some ((int (length (nodeIds m)), ofvid st, nrFaces st, nrIntFaces st), neighbour st),
              fileBoundary := Some (length (grpStartFace st), ps) \<rparr>, Raised IndexError)"
      if "env_canOpen e"
      using that b w r err by (simp add: exportToFoam_def writeFiles_def Let_def)
    with l1 l2 name lps show ?thesis by auto
  qed
  have "snd (exportToFoam e m) \<noteq> Finished"
  proof
    assume "snd (exportToFoam e m) = Finished"
    then have "exportToFoam e m = (fst (exportToFoam e m), Finished)"
      by (simp add: prod_eq_iff)
    from exportToFoam_Finished [OF this] obtain st where b: "buildMesh e m = Inr st" by blast
    have "env_canOpen e"
      using \<open>snd (exportToFoam e m) = Finished\<close> by (auto simp: exportToFoam_def split: if_splits)
    with main [OF b] \<open>snd (exportToFoam e m) = Finished\<close> show False by simp
  qed
  with main show ?thesis by blast
qed

theorem empty_group_IndexError_witness:
  "snd (exportToFoam py3 (twoHex [faceGroup ''inlet'' [1, 2], faceGroup ''empty'' []])) = Raised IndexError \<and>
   map_sum id (\<lambda>st. (grpNames st, grpStartFace st, grpNrFaces st))
     (buildMesh py3 (twoHex [faceGroup ''inlet'' [1, 2], faceGroup ''empty'' []])) =
     Inr ([''inlet'', ''empty'', ''defaultPatches''], [1, 3], [2, 8]) \<and>
   fileBoundary (fst (exportToFoam py3 (twoHex [faceGroup ''inlet'' [1, 2], faceGroup ''empty'' []]))) =
     Some (2, [\<lparr> patchName = ''inlet'', patchType = ''patch'', nFaces = 2, startFace = 1 \<rparr>,
               \<lparr> patchName = ''empty'', patchType = ''patch'', nFaces = 8, startFace = 3 \<rparr>])"
proof -
  let ?m = "twoHex [faceGroup ''inlet'' [1, 2], faceGroup ''empty'' []]"
  have g: "faceGroup ''empty'' [] \<in> set (GetGroups ?m)" "GetType (faceGroup ''empty'' []) = FACE"
    "GetIDs (faceGroup ''empty'' []) = []"
    by (simp_all add: twoHex_def faceGroup_def)
  have b: "map_sum id (\<lambda>st. (grpNames st, grpStartFace st, grpNrFaces st)) (buildMesh py3 ?m) =
     Inr ([''inlet'', ''empty'', ''defaultPatches''], [1, 3], [2, 8])"
    by code_simp
  have f: "fileBoundary (fst (exportToFoam py3 ?m)) =
     Some (2, [\<lparr> patchName = ''inlet'', patchType = ''patch'', nFaces = 2, startFace = 1 \<rparr>,
               \<lparr> patchName = ''empty'', patchType = ''patch'', nFaces = 8, startFace = 3 \<rparr>])"
    by code_simp
  from b obtain st where st: "buildMesh py3 ?m = Inr st"
    by (cases "buildMesh py3 ?m") auto
  have o: "env_canOpen py3" by (simp add: py3_def)
  from empty_group_IndexError [OF g, of py3] st o
  have "snd (exportToFoam py3 ?m) = Raised IndexError" by blast
  with b f show ?thesis by simp
qed

text \<open>
  C10 as stated fails when an earlier pass raises first: with a face in two groups the
  export ends with the exception of the group loop, not with \<^verbatim>\<open>IndexError\<close>.
\<close>

theorem empty_group_conflict_counterexample:
  "GetIDs (faceGroup ''empty'' []) = [] \<and>
   snd (exportToFoam py3
     (twoHex [faceGroup ''empty'' [], faceGroup ''inlet'' [1, 2], faceGroup ''outlet'' [2, 3]])) =
   Raised (Exception
     ''Error the face, elemId 2, [1, 2, 6, 5] belongs to two or more groups. One is : outlet'') \<and>
   snd (exportToFoam py3
     (twoHex [faceGroup ''empty'' [], faceGroup ''inlet'' [1, 2], faceGroup ''outlet'' [2, 3]])) \<noteq>
   Raised IndexError"
  by code_simp

section \<open>A face in two groups\<close>







section \<open>The lengths of the owner and neighbour arrays\<close>

lemma bufferLoop_takeWhile:
  "bufferLoop m v i fs ks =
     (fs @ takeWhile (\<lambda>f. f \<noteq> []) (drop i (elemFaces m v)),
      ks @ map Key (takeWhile (\<lambda>f. f \<noteq> []) (drop i (elemFaces m v))),
      i + length (takeWhile (\<lambda>f. f \<noteq> []) (drop i (elemFaces m v))))"
proof (induction m v i fs ks rule: bufferLoop.induct)
  case (1 m v i fs ks)
  show ?case
  proof (cases "GetElemFaceNodes m v i \<noteq> []")
    case True
    then have i: "i < length (elemFaces m v)" and x: "elemFaces m v ! i \<noteq> []"
      by (auto simp: GetElemFaceNodes_def split: if_splits)
    then have d: "drop i (elemFaces m v) = elemFaces m v ! i # drop (Suc i) (elemFaces m v)"
      by (simp add: Cons_nth_drop_Suc)
    from i have g: "GetElemFaceNodes m v i = elemFaces m v ! i"
      by (simp add: GetElemFaceNodes_def)
    from True "1.IH" [OF True] show ?thesis
      by (subst bufferLoop.simps) (simp add: d g x)
  next
    case False
    then have "takeWhile (\<lambda>f. f \<noteq> []) (drop i (elemFaces m v)) = []"
      by (cases "i < length (elemFaces m v)")
         (auto simp: GetElemFaceNodes_def Cons_nth_drop_Suc [symmetric])
    with False show ?thesis by (subst bufferLoop.simps) simp
  qed
qed

lemma buf_fL_count: "buf_fL (newMeshBuffer m v) = cellFaceCount m v"
  by (simp add: newMeshBuffer_def bufferLoop_takeWhile cellFaceCount_def)

lemma initState_counts:
  "nrFaces (initState m) = (cellFaceTotal m + nrExtFaces m) div 2 \<and>
   nrIntFaces (initState m) = (cellFaceTotal m + nrExtFaces m) div 2 - nrExtFaces m"
  by (simp add: initState_def Let_def buffersOf_def cellFaceTotal_def buf_fL_count comp_def)

lemma groupsLoop_counts:
  assumes "groupsLoop m (set (freeFaceIds m)) grs st = Inr st'"
  shows "nrFaces st' = nrFaces st + baffleTotal m grs \<and>
         nrIntFaces st' = nrIntFaces st - baffleTotal m grs"
  using assms
proof (induction grs arbitrary: st)
  case Nil
  then show ?case by (simp add: baffleTotal_def faceGroups_def)
next
  case (Cons gr grs)
  from Cons.prems obtain st1 where s: "processGroup m (set (freeFaceIds m)) gr st = Inr st1"
    and r: "groupsLoop m (set (freeFaceIds m)) grs st1 = Inr st'"
    by (auto simp: bindE_def split: sum.splits)
  have "nrFaces st1 = nrFaces st + baffleTotal m [gr] \<and>
        nrIntFaces st1 = nrIntFaces st - baffleTotal m [gr]"
  proof (cases "GetType gr = FACE")
    case False
    with s show ?thesis by (simp add: processGroup_other baffleTotal_def faceGroups_def)
  next
    case True
    then show ?thesis
      using processGroup_plain [OF True _ s] processGroup_baffle [OF True _ s]
      by (cases "isGroupBaffle m gr (set (freeFaceIds m))") (simp_all add: baffleTotal_def faceGroups_def)
  qed
  moreover have "baffleTotal m (gr # grs) = baffleTotal m [gr] + baffleTotal m grs"
    by (simp add: baffleTotal_def faceGroups_def)
  ultimately show ?case using Cons.IH [OF r] by simp
qed

lemma baffleTotal_nonneg: "0 \<le> baffleTotal m grs"
  unfolding baffleTotal_def by (rule sum_list_nonneg) auto

lemma cellFaceTotal_nonneg: "0 \<le> cellFaceTotal m"
  unfolding cellFaceTotal_def by (rule sum_list_nonneg) auto

text \<open>
  C2 (as amended). After the cell pass the owner array has length \<open>nrFaces\<close> and the
  neighbour array has length \<open>nrIntFaces\<close> when that count is not negative, and length 0
  otherwise, where \<open>nrFaces\<close> is half the sum of the face counts of the cells and the
  number of free faces, plus the faces of the baffle groups, and \<open>nrIntFaces\<close> is that half
  minus the free faces and minus the faces of the baffle groups.
\<close>

theorem array_lengths:
  assumes "boundaryPass m = Inr st0" "cellPass vfy m st0 = Inr st"
  shows "int (length (owner st)) = nrFaces st \<and>
         int (length (neighbour st)) = max 0 (nrIntFaces st) \<and>
         nrFaces st = (cellFaceTotal m + nrExtFaces m) div 2 + baffleTotal m (GetGroups m) \<and>
         nrIntFaces st = (cellFaceTotal m + nrExtFaces m) div 2 - nrExtFaces m
                           - baffleTotal m (GetGroups m)"
proof -
  from assms(1) obtain stg where g: "groupsLoop m (set (freeFaceIds m)) (GetGroups m) (initState m) = Inr stg"
    and st0: "st0 = addDefaultPatches m stg"
    by (auto simp: boundaryPass_def bindE_def split: sum.splits)
  from groupsLoop_counts [OF g] initState_counts [of m] addDefaultPatches_counts [of m stg] st0
  have c: "nrFaces st0 = (cellFaceTotal m + nrExtFaces m) div 2 + baffleTotal m (GetGroups m)"
    "nrIntFaces st0 = (cellFaceTotal m + nrExtFaces m) div 2 - nrExtFaces m - baffleTotal m (GetGroups m)"
    by simp_all
  from assms(2) have same: "sameTable (initArrays st0) st"
    by (auto simp: cellPass_def dest: cellsLoop_table)
  have "0 \<le> nrExtFaces m" by (simp add: nrExtFaces_def)
  with cellFaceTotal_nonneg [of m] have "0 \<le> (cellFaceTotal m + nrExtFaces m) div 2" by simp
  with c baffleTotal_nonneg [of m "GetGroups m"] have "0 \<le> nrFaces st0" by simp
  with same c show ?thesis
    by (simp add: sameTable_def initArrays_def)
qed

theorem array_lengths_witness:
  "map_sum id (\<lambda>st. (length (owner st), nrFaces st, length (neighbour st), nrIntFaces st))
     (bindE (boundaryPass (twoHex [faceGroup ''walls'' [2, 3, 4, 5]]))
        (cellPass True (twoHex [faceGroup ''walls'' [2, 3, 4, 5]]))) = Inr (11, 11, 1, 1) \<and>
   cellFaceTotal (twoHex [faceGroup ''walls'' [2, 3, 4, 5]]) = 12 \<and>
   nrExtFaces (twoHex [faceGroup ''walls'' [2, 3, 4, 5]]) = 10 \<and>
   baffleTotal (twoHex [faceGroup ''walls'' [2, 3, 4, 5]]) (GetGroups (twoHex [faceGroup ''walls'' [2, 3, 4, 5]])) = 0"
proof -
  let ?m = "twoHex [faceGroup ''walls'' [2, 3, 4, 5]]"
  have v: "map_sum id (\<lambda>st. (length (owner st), nrFaces st, length (neighbour st), nrIntFaces st))
     (bindE (boundaryPass ?m) (cellPass True ?m)) = Inr (11, 11, 1, 1)"
    by code_simp
  have t: "cellFaceTotal ?m = 12" "nrExtFaces ?m = 10" "baffleTotal ?m (GetGroups ?m) = 0"
    by code_simp+
  from v obtain st0 st where a: "boundaryPass ?m = Inr st0" "cellPass True ?m st0 = Inr st"
    by (cases "boundaryPass ?m"; cases "bindE (boundaryPass ?m) (cellPass True ?m)")
       (auto simp: bindE_def)
  from array_lengths [OF a] v t show ?thesis by simp
qed

text \<open>
  C2 as stated fails when a baffle group holds more faces than the mesh has internal faces:
  with the shared quadrilateral and one outer face in one group, \<open>nrIntFaces\<close> is \<open>-1\<close>,
  the neighbour array is empty, and the export completes with \<open>-1\<close> in the file headers.
\<close>

theorem array_lengths_counterexample:
  "map_sum id (\<lambda>st. (length (owner st), nrFaces st, length (neighbour st), nrIntFaces st))
     (bindE (boundaryPass (twoHex [faceGroup ''baffle'' [11, 1]]))
        (cellPass True (twoHex [faceGroup ''baffle'' [11, 1]]))) = Inr (13, 13, 0, - 1) \<and>
   snd (exportToFoam py3 (twoHex [faceGroup ''baffle'' [11, 1]])) = Finished \<and>
   fileNeighbour (fst (exportToFoam py3 (twoHex [faceGroup ''baffle'' [11, 1]]))) =
     Some ((12, 2, 13, - 1), [])"
  by code_simp

section \<open>Baffle groups\<close>

lemma registerBaffleFaces_lookup:
  assumes "distinct (map (\<lambda>f. ReverseKey (PyList (GetElemNodes m f))) ids)" "k < length ids"
  shows "bcFacesSorted (registerBaffleFaces m ids st) (ReverseKey (PyList (GetElemNodes m (ids ! k)))) =
           Some (ofbcfid st + k)"
  using assms
proof (induction ids arbitrary: st k)
  case Nil
  then show ?case by simp
next
  case (Cons f ids)
  let ?st1 = "st\<lparr> bcFaces := bcFaces st @ [GetElemNodes m f],
            bcFacesSorted := (bcFacesSorted st)(ReverseKey (PyList (GetElemNodes m f)) \<mapsto> ofbcfid st),
            ofbcfid := ofbcfid st + 1 \<rparr>"
  have other: "bcFacesSorted (registerBaffleFaces m ids s) key = bcFacesSorted s key"
    if "key \<notin> (\<lambda>f. ReverseKey (PyList (GetElemNodes m f))) ` set ids" for s key
    using that by (induction ids arbitrary: s) auto
  show ?case
  proof (cases k)
    case 0
    with Cons.prems other [of "ReverseKey (PyList (GetElemNodes m f))" ?st1] show ?thesis by simp
  next
    case (Suc j)
    with Cons.prems Cons.IH [of j ?st1] show ?thesis by simp
  qed
qed

lemma distinct_ReverseKey:
  assumes "distinct (map (\<lambda>f. Key (GetElemNodes m f)) ids)"
  shows "distinct (map (\<lambda>f. ReverseKey (PyList (GetElemNodes m f))) ids)"
proof -
  have "map (\<lambda>f. ReverseKey (PyList (GetElemNodes m f))) ids = map rev (map (\<lambda>f. Key (GetElemNodes m f)) ids)"
    by (simp add: Key_def)
  with assms show ?thesis by (simp add: distinct_map del: map_map)
qed

text \<open>
  C4. A face group with a member that is not a free face is classified as a baffle. When
  its faces can be registered (their keys are new and differ from each other), the round
  of the group loop returns, and it has appended every face of the group to the boundary
  faces twice, the second time at an index of its own that the reversed key maps to; the
  face count of the group is twice its member count; every start offset computed so far,
  the one of the group included, is decreased by the member count.
\<close>

theorem baffle_group_doubled:
  assumes "GetType gr = FACE"
    and "\<exists>sid \<in> set (GetIDs gr). sid \<notin> E"
    and "distinct (map (\<lambda>f. Key (GetElemNodes m f)) (GetIDs gr))"
    and "(\<lambda>f. Key (GetElemNodes m f)) ` set (GetIDs gr) \<inter> dom (bcFacesSorted st) = {}"
    and "length (bcFaces st) = ofbcfid st"
  shows "isGroupBaffle m gr E \<and>
    (\<exists>st'. processGroup m E gr st = Inr st' \<and>
       grpNames st' = grpNames st @ [GetName gr] \<and>
       grpNrFaces st' = grpNrFaces st @ [2 * int (length (GetIDs gr))] \<and>
       grpStartFace st' = map (\<lambda>x. x - int (length (GetIDs gr))) (grpStartFace st) @
          [nrIntFaces st - int (length (GetIDs gr)) + int (ofbcfid st)] \<and>
       nrIntFaces st' = nrIntFaces st - int (length (GetIDs gr)) \<and>
       nrFaces st' = nrFaces st + int (length (GetIDs gr)) \<and>
       ofbcfid st' = ofbcfid st + 2 * length (GetIDs gr) \<and>
       length (bcFaces st') = ofbcfid st' \<and>
       (\<forall>k < length (GetIDs gr).
          bcFaces st' ! (ofbcfid st + k) = GetElemNodes m (GetIDs gr ! k) \<and>
          bcFaces st' ! (ofbcfid st + length (GetIDs gr) + k) = GetElemNodes m (GetIDs gr ! k) \<and>
          bcFacesSorted st' (ReverseKey (PyList (GetElemNodes m (GetIDs gr ! k)))) =
            Some (ofbcfid st + length (GetIDs gr) + k)))"
proof -
  let ?ids = "GetIDs gr"
  let ?nr = "int (length ?ids)"
  from assms(2) have baffle: "isGroupBaffle m gr E"
    by (simp add: isGroupBaffle_def isBaffleIds_iff)
  then have ne: "?ids \<noteq> []"
    by (auto simp: isGroupBaffle_def dest: isBaffleIds_nonempty)
  let ?st2 = "st\<lparr> grpNames := grpNames st @ [GetName gr],
                  grpStartFace := grpStartFace st @ [nrIntFaces st + int (ofbcfid st)],
                  grpNrFaces := grpNrFaces st @ [?nr] \<rparr>"
  from registerGroupFaces_total [of m ?ids ?st2 "GetName gr"] assms(3,4)
  obtain st3 where r: "registerGroupFaces m (GetName gr) ?ids ?st2 = Inr st3" by auto
  note fr = registerGroupFaces_frame [OF r] and eff = registerGroupFaces_effect [OF r]
  let ?st4 = "st3\<lparr> nrBCfaces := nrBCfaces st3 + ?nr, nrFaces := nrFaces st3 + ?nr,
                   nrIntFaces := nrIntFaces st3 - ?nr,
                   grpStartFace := map (\<lambda>x. x - ?nr) (grpStartFace st3),
                   grpNrFaces := (grpNrFaces st3)[length (grpNrFaces st3) - 1 := ?nr * 2] \<rparr>"
  define st' where "st' = registerBaffleFaces m ?ids ?st4"
  from fr have nonempty: "grpNrFaces st3 \<noteq> []" by simp
  have p: "processGroup m E gr st = Inr st'"
    using assms(1) baffle ne r nonempty
    by (simp add: processGroup_def Let_def bindE_def st'_def)
  note pb = processGroup_baffle [OF assms(1) baffle p]
  have len: "length (bcFaces st') = ofbcfid st'"
    using pb assms(5) by simp
  have entries: "bcFaces st' ! (ofbcfid st + k) = GetElemNodes m (?ids ! k) \<and>
          bcFaces st' ! (ofbcfid st + length ?ids + k) = GetElemNodes m (?ids ! k) \<and>
          bcFacesSorted st' (ReverseKey (PyList (GetElemNodes m (?ids ! k)))) =
            Some (ofbcfid st + length ?ids + k)" if k: "k < length ?ids" for k
  proof -
    from pb have b: "bcFaces st' = bcFaces st @ map (GetElemNodes m) ?ids @ map (GetElemNodes m) ?ids"
      by simp
    have 1: "bcFaces st' ! (ofbcfid st + k) = GetElemNodes m (?ids ! k)"
      using k assms(5) by (simp add: b nth_append)
    have 2: "bcFaces st' ! (ofbcfid st + length ?ids + k) = GetElemNodes m (?ids ! k)"
      using k assms(5) by (simp add: b nth_append)
    have "ofbcfid ?st4 = ofbcfid st + length ?ids" using eff by simp
    with registerBaffleFaces_lookup [OF distinct_ReverseKey [OF assms(3)] k, of ?st4]
    have 3: "bcFacesSorted st' (ReverseKey (PyList (GetElemNodes m (?ids ! k)))) =
            Some (ofbcfid st + length ?ids + k)" by (simp add: st'_def)
    from 1 2 3 show ?thesis by blast
  qed
  from baffle p pb len entries show ?thesis
    by (intro conjI exI [of _ st']) simp_all
qed

theorem baffle_group_doubled_witness:
  "isGroupBaffle (twoHex [faceGroup ''baffle'' [11]]) (faceGroup ''baffle'' [11])
     (set (freeFaceIds (twoHex [faceGroup ''baffle'' [11]]))) \<and>
   map_sum id (\<lambda>st. (grpNames st, grpNrFaces st, grpStartFace st, nrIntFaces st, nrFaces st, bcFaces st))
     (processGroup (twoHex [faceGroup ''baffle'' [11]])
        (set (freeFaceIds (twoHex [faceGroup ''baffle'' [11]]))) (faceGroup ''baffle'' [11])
        (initState (twoHex [faceGroup ''baffle'' [11]]))) =
     Inr ([''baffle''], [2], [0], 0, 12, [[5, 6, 7, 8], [5, 6, 7, 8]])"
proof -
  let ?m = "twoHex [faceGroup ''baffle'' [11]]"
  let ?gr = "faceGroup ''baffle'' [11]"
  have h: "GetType ?gr = FACE" "\<exists>sid \<in> set (GetIDs ?gr). sid \<notin> set (freeFaceIds ?m)"
    "distinct (map (\<lambda>f. Key (GetElemNodes ?m f)) (GetIDs ?gr))"
    "(\<lambda>f. Key (GetElemNodes ?m f)) ` set (GetIDs ?gr) \<inter> dom (bcFacesSorted (initState ?m)) = {}"
    "length (bcFaces (initState ?m)) = ofbcfid (initState ?m)"
    by (simp_all add: faceGroup_def twoHex_def initState_def Let_def)
  have v: "map_sum id (\<lambda>st. (grpNames st, grpNrFaces st, grpStartFace st, nrIntFaces st, nrFaces st, bcFaces st))
     (processGroup ?m (set (freeFaceIds ?m)) ?gr (initState ?m)) =
     Inr ([''baffle''], [2], [0], 0, 12, [[5, 6, 7, 8], [5, 6, 7, 8]])"
    by code_simp
  from baffle_group_doubled [OF h] v show ?thesis by blast
qed

text \<open>
  C5 (as amended). For the single cube with its top face in a group, the face is a free
  face and the group is not a baffle: its face count is 1, it has one boundary-face entry,
  and the cell owns it. For the two cubes with their shared face in a group, the group is
  a baffle: its face count is 2, its two boundary-face entries have mirrored node order,
  and each of the two cells owns one of them.
\<close>

theorem hex_group_and_baffle:
  "isGroupBaffle (oneHex [faceGroup ''baffle'' [11]]) (faceGroup ''baffle'' [11])
     (set (freeFaceIds (oneHex [faceGroup ''baffle'' [11]]))) = False \<and>
   exportToFoam py3 (oneHex [faceGroup ''baffle'' [11]]) =
     (\<lparr> filePoints = Some [(0, 0, 0), (1, 0, 0), (1, 1, 0), (0, 1, 0),
                             (0, 0, 1), (1, 0, 1), (1, 1, 1), (0, 1, 1)],
        fileFaces = Some (6, [[4, 5, 6, 7], [0, 3, 2, 1], [0, 1, 5, 4], [1, 2, 6, 5],
                              [2, 3, 7, 6], [3, 0, 4, 7]]),
        fileOwner = Some ((8, 1, 6, 0), [0, 0, 0, 0, 0, 0]),
        fileNeighbour = Some ((8, 1, 6, 0), []),
        fileBoundary = Some (2,
          [\<lparr> patchName = ''baffle'', patchType = ''patch'', nFaces = 1, startFace = 0 \<rparr>,
           \<lparr> patchName = ''defaultPatches'', patchType = ''patch'', nFaces = 5, startFace = 1 \<rparr>]),
        fileCellZones = None \<rparr>, Finished) \<and>
   isGroupBaffle (twoHex [faceGroup ''baffle'' [11]]) (faceGroup ''baffle'' [11])
     (set (freeFaceIds (twoHex [faceGroup ''baffle'' [11]]))) = True \<and>
   map_sum id (\<lambda>st. (nrIntFaces st, take 2 (bcFaces st), take 2 (owner st)))
     (buildMesh py3 (twoHex [faceGroup ''baffle'' [11]])) =
     Inr (0, [[5, 6, 7, 8], [5, 8, 7, 6]], [0, 1]) \<and>
   fileBoundary (fst (exportToFoam py3 (twoHex [faceGroup ''baffle'' [11]]))) =
     Some (2, [\<lparr> patchName = ''baffle'', patchType = ''patch'', nFaces = 2, startFace = 0 \<rparr>,
               \<lparr> patchName = ''defaultPatches'', patchType = ''patch'', nFaces = 10, startFace = 2 \<rparr>])"
  by code_simp

text \<open>
  C5 as stated fails: in the single cube the group of the top face has the face count 1,
  and the boundary faces hold the four nodes once only.
\<close>

theorem single_hex_counterexample:
  "fileBoundary (fst (exportToFoam py3 (oneHex [faceGroup ''baffle'' [11]]))) =
     Some (2, [\<lparr> patchName = ''baffle'', patchType = ''patch'', nFaces = 1, startFace = 0 \<rparr>,
               \<lparr> patchName = ''defaultPatches'', patchType = ''patch'', nFaces = 5, startFace = 1 \<rparr>]) \<and>
   map_sum id (\<lambda>st. (grpNrFaces st, filter (\<lambda>f. Key f = [5, 6, 7, 8]) (bcFaces st)))
     (buildMesh py3 (oneHex [faceGroup ''baffle'' [11]])) = Inr ([1, 5], [[5, 6, 7, 8]])"
  by code_simp

section \<open>The synthesized group\<close>


















end
